theory Spec2Isabelle
  imports Main "HOL-Library.Word" "HOL-Library.Multiset"
begin

section \<open>Strings of the JavaScript runtime\<close>

text \<open>
  A JavaScript string is modelled as a \<^typ>\<open>string\<close>: a list of characters with codes
  0..255 (the parameter encoding further down, which reads single code units, has its strings
  as lists of 16-bit code units). Functions of the runtime that the workers call are written
  out here as far as the workers use them; those on lists work for both kinds of string.
\<close>

text \<open>\<^verbatim>\<open>s.split(sep)\<close> for a one-character separator: never empty, \<^verbatim>\<open>"".split(",")\<close> is \<^verbatim>\<open>[""]\<close>.\<close>

fun split_on :: "'a \<Rightarrow> 'a list \<Rightarrow> 'a list list" where
  "split_on sep [] = [[]]"
| "split_on sep (c # cs) =
     (if c = sep then [] # split_on sep cs
      else (case split_on sep cs of
              [] \<Rightarrow> [[c]]
            | p # ps \<Rightarrow> (c # p) # ps))"

text \<open>\<^verbatim>\<open>s.startsWith(t)\<close> and \<^verbatim>\<open>s.includes(t)\<close>.\<close>

fun starts_with :: "string \<Rightarrow> string \<Rightarrow> bool" where
  "starts_with s [] = True"
| "starts_with [] (c # t) = False"
| "starts_with (x # s) (c # t) = (x = c \<and> starts_with s t)"

fun contains_text :: "string \<Rightarrow> string \<Rightarrow> bool" where
  "contains_text [] t = (t = [])"
| "contains_text (x # s) t = (starts_with (x # s) t \<or> contains_text s t)"

text \<open>\<^verbatim>\<open>parts.join(sep)\<close>.\<close>

fun join :: "'a list \<Rightarrow> 'a list list \<Rightarrow> 'a list" where
  "join sep [] = []"
| "join sep [p] = p"
| "join sep (p # q # ps) = p @ sep @ join sep (q # ps)"

text \<open>
  The decimal text of an integer: what \<^verbatim>\<open>String(n)\<close> and a template literal give for
  an integer-valued number of magnitude up to 2^53 (larger numbers are rounded and, from
  10^21 on, printed with an exponent; none is printed here).
\<close>

definition digit_char :: "nat \<Rightarrow> char" where
  "digit_char d = char_of (48 + d)"

fun dec_nat :: "nat \<Rightarrow> string" where
  "dec_nat n = (if n < 10 then [digit_char n] else dec_nat (n div 10) @ [digit_char (n mod 10)])"

declare dec_nat.simps [simp del]

definition dec_int :: "int \<Rightarrow> string" where
  "dec_int i = (if i < 0 then CHR ''-'' # dec_nat (nat (- i)) else dec_nat (nat i))"

text \<open>
  \<^verbatim>\<open>parseInt(s)\<close> with no radix: leading white space is skipped, then an optional sign,
  then an optional \<^verbatim>\<open>0x\<close>/\<^verbatim>\<open>0X\<close> that selects radix 16, then the longest run of digits of
  the radix; no digit at all gives \<^verbatim>\<open>NaN\<close>, which is \<^const>\<open>None\<close> here. The value is
  kept as the exact integer (the runtime rounds it to a double, which changes no comparison
  the worker makes: \<^verbatim>\<open>now\<close> is far below 2^53).
\<close>

definition is_white_space :: "char \<Rightarrow> bool" where
  "is_white_space c = (of_char c \<in> {9, 10, 11, 12, 13, 32, 160 :: nat})"

definition digit_of :: "char \<Rightarrow> nat option" where
  "digit_of c =
     (let n = (of_char c :: nat) in
      if 48 \<le> n \<and> n \<le> 57 then Some (n - 48)
      else if 97 \<le> n \<and> n \<le> 122 then Some (n - 87)
      else if 65 \<le> n \<and> n \<le> 90 then Some (n - 55)
      else None)"

definition is_digit_in :: "nat \<Rightarrow> char \<Rightarrow> bool" where
  "is_digit_in R c = (case digit_of c of None \<Rightarrow> False | Some d \<Rightarrow> d < R)"

definition digits_value :: "nat \<Rightarrow> string \<Rightarrow> nat" where
  "digits_value R ds =
     foldl (\<lambda>a c. a * R + (case digit_of c of None \<Rightarrow> 0 | Some d \<Rightarrow> d)) 0 ds"

definition strip_sign :: "string \<Rightarrow> int \<times> string" where
  "strip_sign s =
     (case s of
        [] \<Rightarrow> (1, [])
      | c # r \<Rightarrow> if c = CHR ''-'' then (- 1, r) else if c = CHR ''+'' then (1, r) else (1, s))"

definition strip_radix :: "string \<Rightarrow> nat \<times> string" where
  "strip_radix s =
     (if take 2 s = ''0x'' \<or> take 2 s = ''0X'' then (16, drop 2 s) else (10, s))"

definition parseInt :: "string \<Rightarrow> int option" where
  "parseInt s =
     (let (sign, s2) = strip_sign (dropWhile is_white_space s);
          (R, s3) = strip_radix s2;
          ds = takeWhile (is_digit_in R) s3
      in if ds = [] then None else Some (sign * int (digits_value R ds)))"

section \<open>Stripe signature verification (stripe-proxy.js in src/workerd.capnp, verifyStripeSignature)\<close>

text \<open>
  A plain object built by assignment \<^verbatim>\<open>acc[k] = v\<close>: an association list with one entry
  per key. Assigning an existing key replaces its value in place, a new key is appended
  (\<^verbatim>\<open>Object.entries\<close> lists string keys in insertion order; it lists index-like keys
  first, which matters to no caller here). Assigning a string or \<^verbatim>\<open>undefined\<close> to
  \<^verbatim>\<open>__proto__\<close> creates no property.
\<close>

fun put :: "'k \<Rightarrow> 'v \<Rightarrow> ('k \<times> 'v) list \<Rightarrow> ('k \<times> 'v) list" where
  "put k v [] = [(k, v)]"
| "put k v ((k', v') # rest) = (if k' = k then (k, v) # rest else (k', v') # put k v rest)"

definition assign :: "string \<Rightarrow> 'v \<Rightarrow> (string \<times> 'v) list \<Rightarrow> (string \<times> 'v) list" where
  "assign k v acc = (if k = ''__proto__'' then acc else put k v acc)"

text \<open>
  \<^verbatim>\<open>const [k, v] = part.split('=')\<close>: the first two pieces; \<^verbatim>\<open>v\<close> is \<^verbatim>\<open>undefined\<close>
  (\<^const>\<open>None\<close>) when the part holds no \<^verbatim>\<open>=\<close>.
\<close>

definition key_value :: "string \<Rightarrow> string \<times> string option" where
  "key_value part =
     (case split_on CHR ''='' part of
        [] \<Rightarrow> ([], None)
      | [k] \<Rightarrow> (k, None)
      | k # v # _ \<Rightarrow> (k, Some v))"

text \<open>\<^verbatim>\<open>sigHeader.split(',').reduce((acc, part) => { ...; acc[k] = v; return acc }, {})\<close>\<close>

definition header_parts :: "string \<Rightarrow> (string \<times> string option) list" where
  "header_parts sigHeader =
     foldl (\<lambda>acc part. case key_value part of (k, v) \<Rightarrow> assign k v acc) []
       (split_on CHR '','' sigHeader)"

text \<open>\<^verbatim>\<open>parts.t\<close>: \<^verbatim>\<open>undefined\<close> when the key is absent or holds \<^verbatim>\<open>undefined\<close>.\<close>

definition timestamp_of :: "string \<Rightarrow> string option" where
  "timestamp_of sigHeader =
     (case map_of (header_parts sigHeader) ''t'' of None \<Rightarrow> None | Some v \<Rightarrow> v)"

text \<open>\<^verbatim>\<open>Object.entries(parts).filter(([k]) => k === 'v1').map(([, v]) => v)\<close>\<close>

definition signatures_of :: "string \<Rightarrow> string option list" where
  "signatures_of sigHeader = map snd (filter (\<lambda>(k, v). k = ''v1'') (header_parts sigHeader))"

text \<open>\<^verbatim>\<open>b.toString(16).padStart(2, '0')\<close> for a byte, and the join over the digest.\<close>

definition hex_digit :: "nat \<Rightarrow> char" where
  "hex_digit d = ''0123456789abcdef'' ! d"

definition toString16 :: "8 word \<Rightarrow> string" where
  "toString16 b =
     (if unat b < 16 then [hex_digit (unat b)]
      else [hex_digit (unat b div 16), hex_digit (unat b mod 16)])"

definition padStart2 :: "string \<Rightarrow> string" where
  "padStart2 s = replicate (2 - length s) CHR ''0'' @ s"

definition hex :: "8 word list \<Rightarrow> string" where
  "hex bytes = concat (map (\<lambda>b. padStart2 (toString16 b)) bytes)"

datatype verify_error = MissingHeader | InvalidFormat | OutsideTolerance | SignatureMismatch

text \<open>The message of the \<^verbatim>\<open>Error\<close> each failure throws.\<close>

fun verify_message :: "verify_error \<Rightarrow> string" where
  "verify_message MissingHeader = ''Missing stripe-signature header''"
| "verify_message InvalidFormat = ''Invalid stripe-signature format''"
| "verify_message OutsideTolerance = ''Timestamp outside tolerance window''"
| "verify_message SignatureMismatch = ''Signature mismatch''"

text \<open>
  \<^verbatim>\<open>Math.abs(now - parseInt(timestamp)) > tolerance\<close>; with \<^verbatim>\<open>NaN\<close> the comparison is
  false.
\<close>

definition tolerance :: int where
  "tolerance = 300"

definition outside_tolerance :: "int \<Rightarrow> string \<Rightarrow> bool" where
  "outside_tolerance now timestamp =
     (case parseInt timestamp of None \<Rightarrow> False | Some t \<Rightarrow> \<bar>now - t\<bar> > tolerance)"

text \<open>
  The function itself. \<open>hm\<close> is the keyed hash of the runtime
  (\<^verbatim>\<open>crypto.subtle\<close> HMAC with SHA-256 over the UTF-8 encodings of key and message),
  \<open>now\<close> is \<^verbatim>\<open>Math.floor(Date.now() / 1000)\<close>, \<open>sigHeader\<close> is \<^const>\<open>None\<close> when
  the request has no such header. \<^const>\<open>Inr\<close> is a normal return, \<^const>\<open>Inl\<close> a throw.
  \<^verbatim>\<open>!sigHeader\<close> and \<^verbatim>\<open>!timestamp\<close> hold for \<^verbatim>\<open>null\<close>, \<^verbatim>\<open>undefined\<close> and the empty
  string.
\<close>

definition computed_signature :: "(string \<Rightarrow> string \<Rightarrow> 8 word list) \<Rightarrow> string \<Rightarrow> string \<Rightarrow> string \<Rightarrow> string" where
  "computed_signature hm secret timestamp payload = hex (hm secret (timestamp @ ''.'' @ payload))"

definition verifyStripeSignature ::
  "(string \<Rightarrow> string \<Rightarrow> 8 word list) \<Rightarrow> int \<Rightarrow> string \<Rightarrow> string option \<Rightarrow> string \<Rightarrow> verify_error + unit" where
  "verifyStripeSignature hm now payload sigHeader secret =
     (case sigHeader of
        None \<Rightarrow> Inl MissingHeader
      | Some h \<Rightarrow>
          if h = [] then Inl MissingHeader
          else
            (case timestamp_of h of
               None \<Rightarrow> Inl InvalidFormat
             | Some timestamp \<Rightarrow>
                 if timestamp = [] \<or> length (signatures_of h) = 0 then Inl InvalidFormat
                 else if outside_tolerance now timestamp then Inl OutsideTolerance
                 else if Some (computed_signature hm secret timestamp payload) \<in> set (signatures_of h)
                   then Inr ()
                   else Inl SignatureMismatch))"

text \<open>Character classes used to state what the functions above produce.\<close>

definition hex_char :: "char \<Rightarrow> bool" where
  "hex_char c = (c \<in> set ''0123456789abcdef'')"

definition dec_digit :: "char \<Rightarrow> bool" where
  "dec_digit c = (48 \<le> (of_char c :: nat) \<and> (of_char c :: nat) \<le> 57)"

definition no_sep :: "string \<Rightarrow> bool" where
  "no_sep s = (CHR '','' \<notin> set s \<and> CHR ''='' \<notin> set s)"


text \<open>
  The header as the specification reads it, to compare the function with: "split
  \<^verbatim>\<open>headerString\<close> on \<^verbatim>\<open>,\<close> then on \<^verbatim>\<open>=\<close> into a key\<rightarrow>value set (duplicate keys
  allowed, e.g. multiple \<^verbatim>\<open>v1\<close> entries, collect all of them)": every \<^verbatim>\<open>v1\<close> value the
  header carries, in the order of the header.
\<close>

definition carried_v1 :: "string \<Rightarrow> string option list" where
  "carried_v1 sigHeader =
     map snd (filter (\<lambda>(k, v). k = ''v1'') (map key_value (split_on CHR '','' sigHeader)))"

text \<open>
  The hexadecimal text of a digest as the specification names it,
  \<^verbatim>\<open>hex(HMAC-SHA256(S, "T.P"))\<close>: two lower-case digits for each byte, the high four bits
  first.
\<close>

definition hex_digits :: "8 word list \<Rightarrow> string" where
  "hex_digits bytes =
     concat (map (\<lambda>b. [''0123456789abcdef'' ! (unat b div 16), ''0123456789abcdef'' ! (unat b mod 16)]) bytes)"
section \<open>JavaScript values\<close>

text \<open>
  The values a JSON document holds. \<^verbatim>\<open>JObj\<close> lists the own
  properties in the order \<^verbatim>\<open>Object.entries\<close> gives them, one entry per key.
  \<^verbatim>\<open>JNum\<close> holds an integer-valued number in the range -2^53 .. 2^53 - 1, as a 54-bit
  word read with \<^const>\<open>sint\<close>: the integers that a double holds exactly and that the runtime
  prints in full decimal digits. Fractions and larger numbers are outside this model.
\<close>

datatype jsval =
    JUndefined
  | JNull
  | JBool bool
  | JNum "54 word"
  | JStr string
  | JArr "jsval list"
  | JObj "(string \<times> jsval) list"

text \<open>
  What a statement can throw. The message of a \<^verbatim>\<open>TypeError\<close>, \<^verbatim>\<open>SyntaxError\<close> or
  \<^verbatim>\<open>URIError\<close> is the engine's and is not modelled; \<^verbatim>\<open>Failure m\<close> is
  \<^verbatim>\<open>new Error(m)\<close>.
\<close>

datatype thrown = TypeError | SyntaxError | URIError | Failure string

definition then_do :: "'e + 'a \<Rightarrow> ('a \<Rightarrow> 'e + 'b) \<Rightarrow> 'e + 'b" where
  "then_do r f = (case r of Inl e \<Rightarrow> Inl e | Inr x \<Rightarrow> f x)"

text \<open>Truthiness: what \<^verbatim>\<open>!v\<close>, \<^verbatim>\<open>v || w\<close> and \<^verbatim>\<open>if (v)\<close> test.\<close>

fun truthy :: "jsval \<Rightarrow> bool" where
  "truthy JUndefined = False"
| "truthy JNull = False"
| "truthy (JBool b) = b"
| "truthy (JNum n) = (n \<noteq> 0)"
| "truthy (JStr s) = (s \<noteq> [])"
| "truthy (JArr xs) = True"
| "truthy (JObj kvs) = True"

definition truthy_text :: "string option \<Rightarrow> bool" where
  "truthy_text v = (case v of None \<Rightarrow> False | Some s \<Rightarrow> s \<noteq> [])"

text \<open>
  Property access \<^verbatim>\<open>v.name\<close>, for the names the workers read (\<^verbatim>\<open>type\<close>, \<^verbatim>\<open>data\<close>,
  \<^verbatim>\<open>object\<close>, \<^verbatim>\<open>id\<close>, \<^verbatim>\<open>customer\<close>, \<^verbatim>\<open>status\<close>, \<^verbatim>\<open>url\<close>, \<^verbatim>\<open>error\<close>,
  \<^verbatim>\<open>message\<close>, \<^verbatim>\<open>price_id\<close>, ...; none of them is a property of a prototype): it throws on
  \<^verbatim>\<open>null\<close> and \<^verbatim>\<open>undefined\<close>, and is \<^verbatim>\<open>undefined\<close> where the property is missing.
\<close>

fun get_prop :: "jsval \<Rightarrow> string \<Rightarrow> thrown + jsval" where
  "get_prop JUndefined name = Inl TypeError"
| "get_prop JNull name = Inl TypeError"
| "get_prop (JObj kvs) name = (case map_of kvs name of None \<Rightarrow> Inr JUndefined | Some v \<Rightarrow> Inr v)"
| "get_prop v name = Inr JUndefined"

text \<open>
  \<^verbatim>\<open>String(v)\<close>, as a template literal applies it. An array
  joins its elements with commas, \<^verbatim>\<open>null\<close> and \<^verbatim>\<open>undefined\<close> elements as the empty
  string. A plain object is \<^verbatim>\<open>[object Object]\<close>; with an own property \<^verbatim>\<open>toString\<close> (which
  is no function in these values) the conversion throws.
\<close>

fun ToString :: "jsval \<Rightarrow> thrown + string"
  and elements_ToString :: "jsval list \<Rightarrow> thrown + string list" where
  "ToString JUndefined = Inr ''undefined''"
| "ToString JNull = Inr ''null''"
| "ToString (JBool b) = Inr (if b then ''true'' else ''false'')"
| "ToString (JNum n) = Inr (dec_int (sint n))"
| "ToString (JStr s) = Inr s"
| "ToString (JArr xs) =
     (case elements_ToString xs of Inl e \<Rightarrow> Inl e | Inr ss \<Rightarrow> Inr (join '','' ss))"
| "ToString (JObj kvs) =
     (if map_of kvs ''toString'' = None then Inr ''[object Object]'' else Inl TypeError)"
| "elements_ToString [] = Inr []"
| "elements_ToString (x # xs) =
     (case (if x = JUndefined \<or> x = JNull then Inr [] else ToString x) of
        Inl e \<Rightarrow> Inl e
      | Inr s \<Rightarrow> (case elements_ToString xs of Inl e \<Rightarrow> Inl e | Inr ss \<Rightarrow> Inr (s # ss)))"

text \<open>
  \<^verbatim>\<open>Object.entries(v)\<close>: throws on \<^verbatim>\<open>null\<close> and \<^verbatim>\<open>undefined\<close>; an array and a string
  list their indices; a number and a boolean have no own property.
\<close>

definition indexed :: "'a list \<Rightarrow> (string \<times> 'a) list" where
  "indexed xs = map (\<lambda>(i, x). (dec_nat i, x)) (enumerate 0 xs)"

fun Object_entries :: "jsval \<Rightarrow> thrown + (string \<times> jsval) list" where
  "Object_entries JUndefined = Inl TypeError"
| "Object_entries JNull = Inl TypeError"
| "Object_entries (JObj kvs) = Inr kvs"
| "Object_entries (JArr xs) = Inr (indexed xs)"
| "Object_entries (JStr s) = Inr (indexed (map (\<lambda>c. JStr [c]) s))"
| "Object_entries v = Inr []"

section \<open>The Stripe worker (stripe-proxy.js in src/workerd.capnp)\<close>

subsection \<open>Environment, request, response, effects\<close>

text \<open>A binding of the environment is \<^const>\<open>None\<close> when it is not set.\<close>

record env =
  STRIPE_SECRET_KEY :: "string option"
  STRIPE_WEBHOOK_SECRET :: "string option"
  ALLOWED_ORIGIN :: "string option"

text \<open>
  What the worker reads of a request: \<^verbatim>\<open>request.method\<close>, \<^verbatim>\<open>url.pathname\<close>, the
  \<^verbatim>\<open>Origin\<close> and \<^verbatim>\<open>stripe-signature\<close> headers (\<^const>\<open>None\<close> for \<^verbatim>\<open>null\<close>) and the
  body text.
\<close>

record request =
  req_method :: string
  req_pathname :: string
  req_origin :: "string option"
  req_signature :: "string option"
  req_body :: string

text \<open>A price of Stripe's listing, with its product expanded, as Stripe's API types it.\<close>

record product =
  product_id :: string
  product_name :: string
  product_description :: "string option"
  product_metadata :: "(string \<times> string) list"
  product_deleted :: bool

record recurring =
  recurring_interval :: string
  recurring_interval_count :: int

record price =
  price_id :: string
  price_unit_amount :: "int option"
  price_currency :: string
  price_recurring :: "recurring option"
  price_product :: "product option"

record product_view =
  pv_id :: string
  pv_name :: string
  pv_description :: "string option"
  pv_metadata :: "(string \<times> string) list"

record price_view =
  view_id :: string
  view_amount :: "int option"
  view_currency :: string
  view_interval :: "string option"
  view_interval_count :: "int option"
  view_product :: product_view

text \<open>
  A response body: none, a text, the JSON of a value, \<^verbatim>\<open>Response.json({ error: err.message })\<close>
  for a caught \<open>err\<close>, or \<^verbatim>\<open>Response.json({ prices: formatted })\<close>.
\<close>

datatype body =
    NoBody
  | Text string
  | Json jsval
  | ErrorJson thrown
  | PricesJson "price_view list"

text \<open>Header names are kept in lower case, as \<^verbatim>\<open>Headers\<close> keeps them.\<close>

record response =
  status :: nat
  headers :: "(string \<times> string) list"
  body :: body

text \<open>The lines the webhook handler writes with \<^verbatim>\<open>console.log\<close>, by their interpolated texts.\<close>

datatype log_line =
    CheckoutCompleted string string
  | SubscriptionChanged string string string
  | SubscriptionCancelled string
  | PaymentFailed string string
  | PaymentSucceeded string
  | UnhandledEvent string

text \<open>An outbound call to the payment processor, and the reply \<^verbatim>\<open>fetch\<close> resolves to.\<close>

record stripe_call =
  call_method :: string
  call_url :: string
  call_authorization :: string
  call_form :: "(string \<times> string) list option"

record stripe_reply =
  reply_ok :: bool
  reply_status :: nat
  reply_json :: "thrown + jsval"

datatype effect =
    ConsoleLog log_line
  | ConsoleError thrown
  | StripeFetch stripe_call

text \<open>
  What the runtime and the network supply: the keyed hash, the clock
  (\<^verbatim>\<open>Math.floor(Date.now() / 1000)\<close> and \<^verbatim>\<open>new Date().toISOString()\<close>), \<^verbatim>\<open>JSON.parse\<close>
  (\<^const>\<open>None\<close> when it throws), the outcome of \<^verbatim>\<open>fetch\<close> to the processor (\<^const>\<open>Inl\<close>
  when it rejects), and the reading of a price listing's \<^verbatim>\<open>data\<close> under Stripe's types
  (\<^const>\<open>Inl\<close> where the handler would throw on a reply that has none).
\<close>

record runtime =
  hmac :: "string \<Rightarrow> string \<Rightarrow> 8 word list"
  seconds :: int
  iso_time :: string
  JSON_parse :: "string \<Rightarrow> jsval option"
  stripe_fetch :: "stripe_call \<Rightarrow> thrown + stripe_reply"
  price_data :: "jsval \<Rightarrow> thrown + price list"

definition first_truthy :: "string option \<Rightarrow> string option \<Rightarrow> string option" where
  "first_truthy a b = (if truthy_text a then a else b)"

definition CORS_HEADERS :: "string option \<Rightarrow> (string \<times> string) list" where
  "CORS_HEADERS origin =
     [(''access-control-allow-origin'', (case first_truthy origin (Some ''*'') of None \<Rightarrow> [] | Some s \<Rightarrow> s)),
      (''access-control-allow-methods'', ''GET, POST, OPTIONS''),
      (''access-control-allow-headers'', ''Content-Type, Authorization''),
      (''access-control-max-age'', ''86400'')]"

text \<open>\<^verbatim>\<open>Response.json(value, { status })\<close> and \<^verbatim>\<open>new Response(text, { status })\<close>.\<close>

definition json_response :: "nat \<Rightarrow> body \<Rightarrow> response" where
  "json_response st b = \<lparr>status = st, headers = [(''content-type'', ''application/json'')], body = b\<rparr>"

definition text_response :: "nat \<Rightarrow> string \<Rightarrow> response" where
  "text_response st t =
     \<lparr>status = st, headers = [(''content-type'', ''text/plain;charset=UTF-8'')], body = Text t\<rparr>"

subsection \<open>stripeRequest\<close>

text \<open>
  \<^verbatim>\<open>new URLSearchParams(body)\<close> turns each value into a string; the call is made only if
  that succeeds. A reply that is not \<^verbatim>\<open>ok\<close> is thrown as
  \<^verbatim>\<open>new Error(data.error?.message || `Stripe error: ${res.status}`)\<close>.
\<close>

fun form_pairs :: "(string \<times> jsval) list \<Rightarrow> thrown + (string \<times> string) list" where
  "form_pairs [] = Inr []"
| "form_pairs ((k, v) # rest) =
     then_do (ToString v) (\<lambda>s. then_do (form_pairs rest) (\<lambda>ps. Inr ((k, s) # ps)))"

definition error_message :: "jsval \<Rightarrow> nat \<Rightarrow> thrown + string" where
  "error_message data st =
     then_do (get_prop data ''error'') (\<lambda>err.
     then_do (if err = JUndefined \<or> err = JNull then Inr JUndefined else get_prop err ''message'') (\<lambda>m.
       if truthy m then ToString m else Inr (''Stripe error: '' @ dec_nat st)))"

definition stripeRequest ::
  "runtime \<Rightarrow> env \<Rightarrow> string \<Rightarrow> string \<Rightarrow> (string \<times> jsval) list option \<Rightarrow> (thrown + jsval) \<times> effect list" where
  "stripeRequest rt e method path params =
     (case (case params of None \<Rightarrow> Inr None | Some ps \<Rightarrow> then_do (form_pairs ps) (\<lambda>f. Inr (Some f))) of
        Inl err \<Rightarrow> (Inl err, [])
      | Inr form \<Rightarrow>
          (let call = \<lparr>call_method = method,
                       call_url = ''https://api.stripe.com/v1'' @ path,
                       call_authorization =
                         ''Bearer '' @ (case STRIPE_SECRET_KEY e of None \<Rightarrow> ''undefined'' | Some k \<Rightarrow> k),
                       call_form = form\<rparr>
           in (case stripe_fetch rt call of
                 Inl err \<Rightarrow> Inl err
               | Inr res \<Rightarrow>
                   then_do (reply_json res) (\<lambda>data.
                     if reply_ok res then Inr data
                     else (case error_message data (reply_status res) of
                             Inl err \<Rightarrow> Inl err
                           | Inr m \<Rightarrow> Inl (Failure m))),
               [StripeFetch call])))"

subsection \<open>POST /checkout\<close>

definition default_origin :: string where
  "default_origin = ''https://blackroad-brand-kit.pages.dev''"

definition or_else :: "jsval \<Rightarrow> jsval \<Rightarrow> jsval" where
  "or_else a b = (if truthy a then a else b)"

definition checkout_params ::
  "string \<Rightarrow> jsval \<Rightarrow> jsval \<Rightarrow> jsval \<Rightarrow> jsval \<Rightarrow> (string \<times> jsval) list \<Rightarrow> (string \<times> jsval) list" where
  "checkout_params origin pid success_url cancel_url customer_email metadata_entries =
     (let successUrl = or_else success_url (JStr (origin @ ''/success?session_id={CHECKOUT_SESSION_ID}''));
          cancelUrl = or_else cancel_url (JStr (origin @ ''/pricing''));
          params =
            foldl (\<lambda>acc (k, v). put (''metadata['' @ k @ '']'') v acc)
              [(''mode'', JStr ''subscription''),
               (''line_items[0][price]'', pid),
               (''line_items[0][quantity]'', JStr ''1''),
               (''success_url'', successUrl),
               (''cancel_url'', cancelUrl),
               (''automatic_tax[enabled]'', JStr ''true''),
               (''subscription_data[metadata][source]'', JStr ''blackroad-brand-kit'')]
              metadata_entries
      in if truthy customer_email then put ''customer_email'' customer_email params else params)"

text \<open>
  \<^verbatim>\<open>const { price_id, success_url, cancel_url, customer_email, metadata = {} } = body\<close>:
  throws when \<open>body\<close> is \<^verbatim>\<open>null\<close>; the default stands in for an \<^verbatim>\<open>undefined\<close>
  \<^verbatim>\<open>metadata\<close> only.
\<close>

definition checkout_fields :: "jsval \<Rightarrow> thrown + jsval \<times> jsval \<times> jsval \<times> jsval \<times> jsval" where
  "checkout_fields b =
     then_do (get_prop b ''price_id'') (\<lambda>pid.
     then_do (get_prop b ''success_url'') (\<lambda>success_url.
     then_do (get_prop b ''cancel_url'') (\<lambda>cancel_url.
     then_do (get_prop b ''customer_email'') (\<lambda>customer_email.
     then_do (get_prop b ''metadata'') (\<lambda>metadata.
       Inr (pid, success_url, cancel_url, customer_email,
            if metadata = JUndefined then JObj [] else metadata))))))"

definition handleCheckout :: "runtime \<Rightarrow> env \<Rightarrow> request \<Rightarrow> (thrown + response) \<times> effect list" where
  "handleCheckout rt e req =
     (case JSON_parse rt (req_body req) of
        None \<Rightarrow> (Inl SyntaxError, [])
      | Some b \<Rightarrow>
          (case checkout_fields b of
             Inl err \<Rightarrow> (Inl err, [])
           | Inr (pid, success_url, cancel_url, customer_email, metadata) \<Rightarrow>
               if \<not> truthy pid
               then (Inr (json_response 400 (Json (JObj [(''error'', JStr ''price_id is required'')]))), [])
               else
                 (let origin =
                        (case first_truthy (first_truthy (req_origin req) (ALLOWED_ORIGIN e))
                                (Some default_origin) of
                           None \<Rightarrow> [] | Some s \<Rightarrow> s)
                  in (case Object_entries metadata of
                        Inl err \<Rightarrow> (Inl err, [])
                      | Inr entries \<Rightarrow>
                          (case stripeRequest rt e ''POST'' ''/checkout/sessions''
                                  (Some (checkout_params origin pid success_url cancel_url
                                           customer_email entries)) of
                             (Inl err, fx) \<Rightarrow> (Inl err, fx)
                           | (Inr session, fx) \<Rightarrow>
                               (then_do (get_prop session ''url'') (\<lambda>u.
                                then_do (get_prop session ''id'') (\<lambda>i.
                                  Inr (json_response 200
                                         (Json (JObj [(''url'', u), (''session_id'', i)]))))),
                                fx))))))"

subsection \<open>POST /portal\<close>

definition portal_fields :: "jsval \<Rightarrow> thrown + jsval \<times> jsval" where
  "portal_fields b =
     then_do (get_prop b ''customer_id'') (\<lambda>customer_id.
     then_do (get_prop b ''return_url'') (\<lambda>return_url. Inr (customer_id, return_url)))"

definition handlePortal :: "runtime \<Rightarrow> env \<Rightarrow> request \<Rightarrow> (thrown + response) \<times> effect list" where
  "handlePortal rt e req =
     (case JSON_parse rt (req_body req) of
        None \<Rightarrow> (Inl SyntaxError, [])
      | Some b \<Rightarrow>
          (case portal_fields b of
             Inl err \<Rightarrow> (Inl err, [])
           | Inr (customer_id, return_url) \<Rightarrow>
               if \<not> truthy customer_id
               then (Inr (json_response 400 (Json (JObj [(''error'', JStr ''customer_id is required'')]))), [])
               else
                 (let origin =
                        (case first_truthy (req_origin req) (ALLOWED_ORIGIN e) of
                           None \<Rightarrow> ''undefined'' | Some s \<Rightarrow> s)
                  in (case stripeRequest rt e ''POST'' ''/billing_portal/sessions''
                             (Some [(''customer'', customer_id),
                                    (''return_url'', or_else return_url (JStr (origin @ ''/account'')))]) of
                        (Inl err, fx) \<Rightarrow> (Inl err, fx)
                      | (Inr session, fx) \<Rightarrow>
                          (then_do (get_prop session ''url'') (\<lambda>u.
                             Inr (json_response 200 (Json (JObj [(''url'', u)])))),
                           fx)))))"

subsection \<open>GET /prices\<close>

text \<open>\<^verbatim>\<open>p => p.product && !p.product.deleted\<close>\<close>

definition live_product :: "price \<Rightarrow> bool" where
  "live_product p = (case price_product p of None \<Rightarrow> False | Some pr \<Rightarrow> \<not> product_deleted pr)"

text \<open>
  The mapping \<^verbatim>\<open>p => ({ id: p.id, amount: p.unit_amount, ... })\<close>; it runs on prices that
  passed the filter, and throws on \<^verbatim>\<open>p.product.id\<close> otherwise.
\<close>

definition format_price :: "price \<Rightarrow> thrown + price_view" where
  "format_price p =
     (case price_product p of
        None \<Rightarrow> Inl TypeError
      | Some pr \<Rightarrow>
          Inr \<lparr>view_id = price_id p,
               view_amount = price_unit_amount p,
               view_currency = price_currency p,
               view_interval = map_option recurring_interval (price_recurring p),
               view_interval_count = map_option recurring_interval_count (price_recurring p),
               view_product = \<lparr>pv_id = product_id pr, pv_name = product_name pr,
                                 pv_description = product_description pr,
                                 pv_metadata = product_metadata pr\<rparr>\<rparr>)"

fun map_throwing :: "('a \<Rightarrow> thrown + 'b) \<Rightarrow> 'a list \<Rightarrow> thrown + 'b list" where
  "map_throwing f [] = Inr []"
| "map_throwing f (x # xs) =
     then_do (f x) (\<lambda>y. then_do (map_throwing f xs) (\<lambda>ys. Inr (y # ys)))"

text \<open>\<^verbatim>\<open>(a, b) => (a.amount || 0) - (b.amount || 0)\<close>\<close>

definition amount_or_0 :: "price_view \<Rightarrow> int" where
  "amount_or_0 a = (case view_amount a of None \<Rightarrow> 0 | Some n \<Rightarrow> if n \<noteq> 0 then n else 0)"

definition compare_amount :: "price_view \<Rightarrow> price_view \<Rightarrow> int" where
  "compare_amount a b = amount_or_0 a - amount_or_0 b"

text \<open>
  \<^verbatim>\<open>Array.prototype.sort(compare)\<close>: a stable sort; an element stays before the elements it
  does not compare greater than. Written as the insertion sort that gives that order.
\<close>

fun insert_sorted :: "('a \<Rightarrow> 'a \<Rightarrow> int) \<Rightarrow> 'a \<Rightarrow> 'a list \<Rightarrow> 'a list" where
  "insert_sorted cmp x [] = [x]"
| "insert_sorted cmp x (y # ys) =
     (if cmp x y \<le> 0 then x # y # ys else y # insert_sorted cmp x ys)"

fun sort_by :: "('a \<Rightarrow> 'a \<Rightarrow> int) \<Rightarrow> 'a list \<Rightarrow> 'a list" where
  "sort_by cmp [] = []"
| "sort_by cmp (x # xs) = insert_sorted cmp x (sort_by cmp xs)"

text \<open>The value of \<^verbatim>\<open>formatted\<close>, from \<^verbatim>\<open>prices.data\<close>.\<close>

definition listPrices :: "price list \<Rightarrow> thrown + price_view list" where
  "listPrices data =
     then_do (map_throwing format_price (filter live_product data)) (\<lambda>views.
       Inr (sort_by compare_amount views))"

definition handlePrices :: "runtime \<Rightarrow> env \<Rightarrow> (thrown + response) \<times> effect list" where
  "handlePrices rt e =
     (case stripeRequest rt e ''GET'' ''/prices?active=true&expand[]=data.product&limit=20'' None of
        (Inl err, fx) \<Rightarrow> (Inl err, fx)
      | (Inr prices, fx) \<Rightarrow>
          (then_do (price_data rt prices) (\<lambda>data.
           then_do (listPrices data) (\<lambda>formatted.
             Inr (json_response 200 (PricesJson formatted)))),
           fx))"

subsection \<open>POST /webhook\<close>

text \<open>
  The \<^verbatim>\<open>switch (event.type)\<close>: each branch reads its fields and writes one line. A field
  read on \<^verbatim>\<open>undefined\<close> or \<^verbatim>\<open>null\<close> throws, and so does the conversion of a value to text
  where \<^const>\<open>ToString\<close> does.
\<close>

definition text_of :: "jsval \<Rightarrow> string \<Rightarrow> thrown + string" where
  "text_of v name = then_do (get_prop v name) ToString"

definition data_object :: "jsval \<Rightarrow> thrown + jsval" where
  "data_object event = then_do (get_prop event ''data'') (\<lambda>d. get_prop d ''object'')"

definition dispatch_event :: "jsval \<Rightarrow> thrown + log_line" where
  "dispatch_event event =
     then_do (get_prop event ''type'') (\<lambda>ty.
       if ty = JStr ''checkout.session.completed'' then
         then_do (data_object event) (\<lambda>session.
         then_do (text_of session ''id'') (\<lambda>i.
         then_do (text_of session ''customer'') (\<lambda>c. Inr (CheckoutCompleted i c))))
       else if ty = JStr ''customer.subscription.created'' \<or> ty = JStr ''customer.subscription.updated'' then
         then_do (data_object event) (\<lambda>sub.
         then_do (ToString ty) (\<lambda>t.
         then_do (text_of sub ''id'') (\<lambda>i.
         then_do (text_of sub ''status'') (\<lambda>s. Inr (SubscriptionChanged t i s)))))
       else if ty = JStr ''customer.subscription.deleted'' then
         then_do (data_object event) (\<lambda>sub.
         then_do (text_of sub ''id'') (\<lambda>i. Inr (SubscriptionCancelled i)))
       else if ty = JStr ''invoice.payment_failed'' then
         then_do (data_object event) (\<lambda>invoice.
         then_do (text_of invoice ''id'') (\<lambda>i.
         then_do (text_of invoice ''customer'') (\<lambda>c. Inr (PaymentFailed i c))))
       else if ty = JStr ''invoice.payment_succeeded'' then
         then_do (data_object event) (\<lambda>invoice.
         then_do (text_of invoice ''id'') (\<lambda>i. Inr (PaymentSucceeded i)))
       else then_do (ToString ty) (\<lambda>t. Inr (UnhandledEvent t)))"

definition acknowledgement :: body where
  "acknowledgement = Json (JObj [(''received'', JBool True)])"

text \<open>
  \<^verbatim>\<open>if (env.STRIPE_WEBHOOK_SECRET) { try { await verifyStripeSignature(...) } catch ... }\<close>:
  the outcome of the guard, \<^const>\<open>Inr\<close> also when the secret is not set.
\<close>

definition verification :: "runtime \<Rightarrow> env \<Rightarrow> request \<Rightarrow> verify_error + unit" where
  "verification rt e req =
     (case STRIPE_WEBHOOK_SECRET e of
        None \<Rightarrow> Inr ()
      | Some secret \<Rightarrow>
          if secret = [] then Inr ()
          else verifyStripeSignature (hmac rt) (seconds rt) (req_body req) (req_signature req) secret)"

definition handleWebhook :: "runtime \<Rightarrow> env \<Rightarrow> request \<Rightarrow> (thrown + response) \<times> effect list" where
  "handleWebhook rt e req =
     (case verification rt e req of
        Inl err \<Rightarrow>
          (Inr (text_response 400 (''Webhook signature verification failed: '' @ verify_message err)), [])
      | Inr _ \<Rightarrow>
          (case JSON_parse rt (req_body req) of
             None \<Rightarrow> (Inr (text_response 400 ''Invalid JSON''), [])
           | Some event \<Rightarrow>
               (case dispatch_event event of
                  Inl err \<Rightarrow> (Inl err, [])
                | Inr line \<Rightarrow> (Inr (json_response 200 acknowledgement), [ConsoleLog line]))))"

subsection \<open>The main handler\<close>

text \<open>
  The route taken inside the \<^verbatim>\<open>try\<close>: a response the handler returns at once (the webhook's),
  a response that gets the CORS headers, or a throw that the \<^verbatim>\<open>catch\<close> turns into a 500.
\<close>

datatype routed = Returned response | Assigned response

definition assigned :: "(thrown + response) \<times> effect list \<Rightarrow> (thrown + routed) \<times> effect list" where
  "assigned r = (case r of (Inl err, fx) \<Rightarrow> (Inl err, fx) | (Inr resp, fx) \<Rightarrow> (Inr (Assigned resp), fx))"

definition returned :: "(thrown + response) \<times> effect list \<Rightarrow> (thrown + routed) \<times> effect list" where
  "returned r = (case r of (Inl err, fx) \<Rightarrow> (Inl err, fx) | (Inr resp, fx) \<Rightarrow> (Inr (Returned resp), fx))"

definition not_found :: body where
  "not_found =
     Json (JObj [(''error'', JStr ''Not found''),
                 (''routes'', JArr [JStr ''/health'', JStr ''/checkout'', JStr ''/portal'',
                                    JStr ''/webhook'', JStr ''/prices''])])"

definition health :: "runtime \<Rightarrow> body" where
  "health rt =
     Json (JObj [(''status'', JStr ''ok''), (''worker'', JStr ''stripe-checkout''),
                 (''time'', JStr (iso_time rt))])"

definition route :: "runtime \<Rightarrow> env \<Rightarrow> request \<Rightarrow> (thrown + routed) \<times> effect list" where
  "route rt e req =
     (if req_pathname req = ''/health'' then (Inr (Assigned (json_response 200 (health rt))), [])
      else if req_method req = ''POST'' \<and> req_pathname req = ''/checkout'' then assigned (handleCheckout rt e req)
      else if req_method req = ''POST'' \<and> req_pathname req = ''/portal'' then assigned (handlePortal rt e req)
      else if req_method req = ''POST'' \<and> req_pathname req = ''/webhook'' then returned (handleWebhook rt e req)
      else if req_method req = ''GET'' \<and> req_pathname req = ''/prices'' then assigned (handlePrices rt e)
      else (Inr (Assigned (json_response 404 not_found)), []))"

text \<open>\<^verbatim>\<open>for (const [k, v] of Object.entries(cors)) headers.set(k, v)\<close>\<close>

definition with_cors :: "(string \<times> string) list \<Rightarrow> response \<Rightarrow> response" where
  "with_cors cors r = r\<lparr>headers := foldl (\<lambda>hs (k, v). put k v hs) (headers r) cors\<rparr>"

definition unconfigured :: body where
  "unconfigured =
     Json (JObj [(''error'', JStr ''Stripe not configured. Set STRIPE_SECRET_KEY in worker environment.'')])"

definition fetch :: "runtime \<Rightarrow> env \<Rightarrow> request \<Rightarrow> response \<times> effect list" where
  "fetch rt e req =
     (let origin = first_truthy (first_truthy (req_origin req) (ALLOWED_ORIGIN e)) (Some ''*'');
          cors = CORS_HEADERS origin
      in if req_method req = ''OPTIONS'' then (\<lparr>status = 204, headers = cors, body = NoBody\<rparr>, [])
         else if \<not> truthy_text (STRIPE_SECRET_KEY e)
           then (with_cors cors (json_response 503 unconfigured), [])
         else
           (case route rt e req of
              (Inr (Returned r), fx) \<Rightarrow> (r, fx)
            | (Inr (Assigned r), fx) \<Rightarrow> (with_cors cors r, fx)
            | (Inl err, fx) \<Rightarrow> (with_cors cors (json_response 500 (ErrorJson err)), fx @ [ConsoleError err])))"

text \<open>
  A runtime to evaluate the handlers at concrete requests: \<^verbatim>\<open>JSON.parse\<close> knows the listed
  documents (text and value) and throws on any other text, the digest is 32 zero bytes, the
  network is unreachable.
\<close>

definition offline_runtime :: "(string \<times> jsval) list \<Rightarrow> runtime" where
  "offline_runtime documents =
     \<lparr>hmac = (\<lambda>key message. replicate 32 0),
      seconds = 1700000000,
      iso_time = ''2023-11-14T22:13:20.000Z'',
      JSON_parse = map_of documents,
      stripe_fetch = (\<lambda>call. Inl (Failure ''network unreachable'')),
      price_data = (\<lambda>reply. Inl TypeError)\<rparr>"

section \<open>The AI gateway worker (src/workers/gateway.js)\<close>

text \<open>The table \<^verbatim>\<open>BACKENDS\<close>: the own properties of the object.\<close>

definition BACKENDS :: "(string \<times> string) list" where
  "BACKENDS =
     [(''ollama'', ''http://127.0.0.1:11434''),
      (''claude'', ''https://api.anthropic.com''),
      (''openai'', ''https://api.openai.com'')]"

text \<open>
  The table is a plain object, so \<^verbatim>\<open>BACKENDS[provider]\<close> also finds what the object inherits
  from \<^verbatim>\<open>Object.prototype\<close>: its functions, here with the name each one prints under, and
  the accessor \<^verbatim>\<open>__proto__\<close>, which gives the prototype itself.
\<close>

definition Object_prototype :: "(string \<times> string) list" where
  "Object_prototype =
     [(''constructor'', ''Object''),
      (''__defineGetter__'', ''__defineGetter__''),
      (''__defineSetter__'', ''__defineSetter__''),
      (''hasOwnProperty'', ''hasOwnProperty''),
      (''__lookupGetter__'', ''__lookupGetter__''),
      (''__lookupSetter__'', ''__lookupSetter__''),
      (''isPrototypeOf'', ''isPrototypeOf''),
      (''propertyIsEnumerable'', ''propertyIsEnumerable''),
      (''toString'', ''toString''),
      (''valueOf'', ''valueOf''),
      (''toLocaleString'', ''toLocaleString'')]"

text \<open>
  What \<^verbatim>\<open>BACKENDS[provider]\<close> gives: the origin of a backend, an inherited function, the
  prototype object, or \<^verbatim>\<open>undefined\<close> (\<^const>\<open>None\<close>).
\<close>

datatype member = Origin string | Inherited string | Prototype

definition backend_of :: "string \<Rightarrow> member option" where
  "backend_of provider =
     (case map_of BACKENDS provider of
        Some origin \<Rightarrow> Some (Origin origin)
      | None \<Rightarrow>
          if provider = ''__proto__'' then Some Prototype
          else map_option Inherited (map_of Object_prototype provider))"

text \<open>\<^verbatim>\<open>!backend\<close>, for a value that is not \<^verbatim>\<open>undefined\<close>: an empty string is falsy.\<close>

fun falsy :: "member \<Rightarrow> bool" where
  "falsy (Origin origin) = (origin = [])"
| "falsy (Inherited name) = False"
| "falsy Prototype = False"

text \<open>
  The text of \<^verbatim>\<open>backend\<close> in the template \<^verbatim>\<open>`${backend}${url.pathname}${url.search}`\<close>; a
  built-in function prints as the engine (V8) prints it.
\<close>

fun member_text :: "member \<Rightarrow> string" where
  "member_text (Origin origin) = origin"
| "member_text (Inherited name) = ''function '' @ name @ ''() { [native code] }''"
| "member_text Prototype = ''[object Object]''"

text \<open>
  The entries of \<^verbatim>\<open>{ error: err.message, backend }\<close> in the JSON of the response:
  \<^verbatim>\<open>JSON.stringify\<close> leaves out a property whose value is a function, and writes the
  prototype object, which has no enumerable property, as \<^verbatim>\<open>{}\<close>.
\<close>

fun backend_entry :: "member \<Rightarrow> (string \<times> jsval) list" where
  "backend_entry (Origin origin) = [(''backend'', JStr origin)]"
| "backend_entry (Inherited name) = []"
| "backend_entry Prototype = [(''backend'', JObj [])]"

record gateway_env =
  ANTHROPIC_API_KEY :: "string option"
  OPENAI_API_KEY :: "string option"

text \<open>
  What the gateway reads of a request: the method, \<^verbatim>\<open>url.pathname\<close>, \<^verbatim>\<open>url.search\<close>,
  \<^verbatim>\<open>url.searchParams.get('provider')\<close> (\<^const>\<open>None\<close> for \<^verbatim>\<open>null\<close>), the headers and the
  body.
\<close>

record gateway_request =
  gw_method :: string
  gw_pathname :: string
  gw_search :: string
  gw_provider :: "string option"
  gw_headers :: "(string \<times> string) list"
  gw_body :: "string option"

text \<open>The request handed to \<^verbatim>\<open>fetch(targetUrl, { method, headers, body })\<close>.\<close>

record forwarded =
  target_url :: string
  forwarded_method :: string
  forwarded_headers :: "(string \<times> string) list"
  forwarded_body :: "string option"

text \<open>
  What the runtime and the network supply: the value \<^verbatim>\<open>headers.set(name, value)\<close> stores
  for a value (\<^const>\<open>Inl\<close> when it throws, as it does on a value that no header can hold),
  and the outcome of the outbound \<^verbatim>\<open>fetch\<close>: the upstream's response, or \<^const>\<open>Inl\<close> the
  message of the error it rejects with.
\<close>

record gateway_runtime =
  header_value :: "string \<Rightarrow> thrown + string"
  upstream :: "forwarded \<Rightarrow> string + response"

definition provider_of :: "gateway_request \<Rightarrow> string" where
  "provider_of req = (case first_truthy (gw_provider req) (Some ''ollama'') of None \<Rightarrow> [] | Some p \<Rightarrow> p)"

text \<open>The headers sent upstream: the request's, with the provider's credential set over them.\<close>

definition inject_auth ::
  "gateway_runtime \<Rightarrow> string \<Rightarrow> gateway_env \<Rightarrow> (string \<times> string) list \<Rightarrow> thrown + (string \<times> string) list" where
  "inject_auth rt provider e hs =
     (if provider = ''claude'' \<and> truthy_text (ANTHROPIC_API_KEY e)
        then then_do (header_value rt (case ANTHROPIC_API_KEY e of None \<Rightarrow> [] | Some k \<Rightarrow> k))
               (\<lambda>v. Inr (put ''x-api-key'' v hs))
      else if provider = ''openai'' \<and> truthy_text (OPENAI_API_KEY e)
        then then_do (header_value rt (''Bearer '' @ (case OPENAI_API_KEY e of None \<Rightarrow> [] | Some k \<Rightarrow> k)))
               (\<lambda>v. Inr (put ''authorization'' v hs))
      else Inr hs)"

definition forwarded_request ::
  "gateway_runtime \<Rightarrow> member \<Rightarrow> gateway_env \<Rightarrow> gateway_request \<Rightarrow> thrown + forwarded" where
  "forwarded_request rt backend e req =
     then_do (inject_auth rt (provider_of req) e (gw_headers req)) (\<lambda>hs.
       Inr \<lparr>target_url = member_text backend @ gw_pathname req @ gw_search req,
            forwarded_method = gw_method req,
            forwarded_headers = hs,
            forwarded_body = (if gw_method req \<noteq> ''GET'' then gw_body req else None)\<rparr>)"

text \<open>
  The handler. \<^const>\<open>Inl\<close> is an exception that leaves the handler: the one
  \<^verbatim>\<open>headers.set\<close> throws, outside the \<^verbatim>\<open>try\<close>.
\<close>

definition unknown_provider :: "string \<Rightarrow> response" where
  "unknown_provider provider =
     json_response 400 (Json (JObj [(''error'', JStr (''Unknown provider: '' @ provider))]))"

definition gateway_fetch :: "gateway_runtime \<Rightarrow> gateway_env \<Rightarrow> gateway_request \<Rightarrow> thrown + response" where
  "gateway_fetch rt e req =
     (let provider = provider_of req in
      case backend_of provider of
        None \<Rightarrow> Inr (unknown_provider provider)
      | Some backend \<Rightarrow>
          if falsy backend then Inr (unknown_provider provider)
          else
            then_do (forwarded_request rt backend e req) (\<lambda>call.
              case upstream rt call of
                Inr res \<Rightarrow> Inr res
              | Inl message \<Rightarrow>
                  Inr (json_response 502 (Json (JObj ((''error'', JStr message) # backend_entry backend))))))"

text \<open>A network that refuses every connection, under a runtime that stores header values as given.\<close>

definition refusing :: gateway_runtime where
  "refusing = \<lparr>header_value = Inr, upstream = (\<lambda>call. Inl ''connection refused'')\<rparr>"
section \<open>Parameter encoding (stripe-proxy.js in src/workerd.capnp, encodeStripeParams)\<close>

text \<open>
  The function takes any object. A string is kept here as the runtime has it, the sequence
  of its 16-bit code units: \<^verbatim>\<open>encodeURIComponent\<close> reads code units, joins a surrogate
  pair into one code point and throws on a surrogate that has no partner. \<open>units\<close> gives
  the code units of a text of the source.
\<close>

type_synonym ustring = "16 word list"

definition code_unit :: "char \<Rightarrow> 16 word" where
  "code_unit c = of_nat (of_char c)"

definition units :: "string \<Rightarrow> ustring" where
  "units s = map code_unit s"

text \<open>
  The values of a parameter object: \<^verbatim>\<open>undefined\<close>, \<^verbatim>\<open>null\<close>, booleans, integer-valued
  numbers in the range -2^53 .. 2^53 - 1 (read with \<^const>\<open>sint\<close>), strings, arrays and plain
  objects, an object as the list \<^verbatim>\<open>Object.entries\<close> gives. Functions, fractions and larger
  numbers are outside this model.
\<close>

datatype param =
    PUndefined
  | PNull
  | PBool bool
  | PNum "54 word"
  | PStr ustring
  | PArr "param list"
  | PObj "(ustring \<times> param) list"

text \<open>
  \<^verbatim>\<open>String(v)\<close>, as \<^verbatim>\<open>encodeURIComponent\<close> applies it to its argument. An array joins its
  elements with commas, \<^verbatim>\<open>null\<close> and \<^verbatim>\<open>undefined\<close> elements as the empty string. A plain
  object is \<^verbatim>\<open>[object Object]\<close>; with an own property \<^verbatim>\<open>toString\<close> (no function, in these
  values) the conversion throws.
\<close>

fun param_text :: "param \<Rightarrow> thrown + ustring"
  and elements_text :: "param list \<Rightarrow> thrown + ustring list" where
  "param_text PUndefined = Inr (units ''undefined'')"
| "param_text PNull = Inr (units ''null'')"
| "param_text (PBool b) = Inr (units (if b then ''true'' else ''false''))"
| "param_text (PNum n) = Inr (units (dec_int (sint n)))"
| "param_text (PStr s) = Inr s"
| "param_text (PArr xs) =
     (case elements_text xs of Inl e \<Rightarrow> Inl e | Inr ss \<Rightarrow> Inr (join (units '','') ss))"
| "param_text (PObj kvs) =
     (if map_of kvs (units ''toString'') = None then Inr (units ''[object Object]'') else Inl TypeError)"
| "elements_text [] = Inr []"
| "elements_text (x # xs) =
     (case (if x = PUndefined \<or> x = PNull then Inr [] else param_text x) of
        Inl e \<Rightarrow> Inl e
      | Inr s \<Rightarrow> (case elements_text xs of Inl e \<Rightarrow> Inl e | Inr ss \<Rightarrow> Inr (s # ss)))"

subsection \<open>encodeURIComponent\<close>

text \<open>
  The characters that stay as they are: \<^verbatim>\<open>A-Z a-z 0-9 - _ . ! ~ * ' ( )\<close>.
\<close>

definition unreserved :: "16 word \<Rightarrow> bool" where
  "unreserved c =
     (let n = unat c in
      (65 \<le> n \<and> n \<le> 90) \<or> (97 \<le> n \<and> n \<le> 122) \<or> (48 \<le> n \<and> n \<le> 57)
      \<or> n \<in> {45, 95, 46, 33, 126, 42, 39, 40, 41})"

text \<open>Surrogates: the code units D800..DBFF lead a pair, DC00..DFFF trail it.\<close>

definition leading_surrogate :: "16 word \<Rightarrow> bool" where
  "leading_surrogate c = (55296 \<le> unat c \<and> unat c \<le> 56319)"

definition trailing_surrogate :: "16 word \<Rightarrow> bool" where
  "trailing_surrogate c = (56320 \<le> unat c \<and> unat c \<le> 57343)"

definition pair_code_point :: "16 word \<Rightarrow> 16 word \<Rightarrow> nat" where
  "pair_code_point lead trail = (unat lead - 55296) * 1024 + (unat trail - 56320) + 65536"

text \<open>The UTF-8 octets of a code point, and the escape \<^verbatim>\<open>%XX\<close> of an octet, in upper case.\<close>

definition utf8 :: "nat \<Rightarrow> nat list" where
  "utf8 cp =
     (if cp < 128 then [cp]
      else if cp < 2048 then [192 + cp div 64, 128 + cp mod 64]
      else if cp < 65536 then [224 + cp div 4096, 128 + cp div 64 mod 64, 128 + cp mod 64]
      else [240 + cp div 262144, 128 + cp div 4096 mod 64, 128 + cp div 64 mod 64, 128 + cp mod 64])"

definition upper_hex :: "nat \<Rightarrow> 16 word" where
  "upper_hex d = (if d < 10 then of_nat (48 + d) else of_nat (55 + d))"

definition percent :: "nat \<Rightarrow> ustring" where
  "percent b = [code_unit CHR ''%'', upper_hex (b div 16), upper_hex (b mod 16)]"

definition escapes :: "nat \<Rightarrow> ustring" where
  "escapes cp = concat (map percent (utf8 cp))"

text \<open>
  The encoding of a string, from its first code unit on: an unreserved character is copied;
  any other code unit is read as a code point, together with the next code unit when the two
  are a surrogate pair, and escaped; a surrogate without its partner throws
  \<^verbatim>\<open>URIError\<close>.
\<close>

fun encode :: "ustring \<Rightarrow> thrown + ustring" where
  "encode [] = Inr []"
| "encode [c] =
     (if unreserved c then Inr [c]
      else if leading_surrogate c \<or> trailing_surrogate c then Inl URIError
      else Inr (escapes (unat c)))"
| "encode (c # d # rest) =
     (if unreserved c then then_do (encode (d # rest)) (\<lambda>r. Inr (c # r))
      else if leading_surrogate c then
        (if trailing_surrogate d
         then then_do (encode rest) (\<lambda>r. Inr (escapes (pair_code_point c d) @ r))
         else Inl URIError)
      else if trailing_surrogate c then Inl URIError
      else then_do (encode (d # rest)) (\<lambda>r. Inr (escapes (unat c) @ r)))"

definition encodeURIComponent :: "param \<Rightarrow> thrown + ustring" where
  "encodeURIComponent v = then_do (param_text v) encode"

subsection \<open>encodeStripeParams\<close>

text \<open>
  \<^verbatim>\<open>value.forEach((v, i) => parts.push(`${fullKey}[${i}]=${encodeURIComponent(v)}`))\<close>: the
  parts pushed for the elements from index \<open>i\<close> on.
\<close>

fun encode_elements :: "ustring \<Rightarrow> nat \<Rightarrow> param list \<Rightarrow> thrown + ustring list" where
  "encode_elements fullKey i [] = Inr []"
| "encode_elements fullKey i (v # vs) =
     then_do (encodeURIComponent v) (\<lambda>s.
     then_do (encode_elements fullKey (Suc i) vs) (\<lambda>ps.
       Inr ((fullKey @ units ''['' @ units (dec_nat i) @ units '']='' @ s) # ps)))"

text \<open>
  The function, on the entries of \<open>obj\<close> (\<^verbatim>\<open>Object.entries(obj)\<close>). \<open>encode_loop\<close> is the
  \<^verbatim>\<open>for\<close> loop over the entries that are left, with the \<open>parts\<close> pushed so far.
\<close>

function encodeStripeParams :: "(ustring \<times> param) list \<Rightarrow> ustring \<Rightarrow> thrown + ustring"
  and encode_loop :: "(ustring \<times> param) list \<Rightarrow> ustring \<Rightarrow> ustring list \<Rightarrow> thrown + ustring list" where
  "encodeStripeParams obj prefix =
     (case encode_loop obj prefix [] of
        Inl err \<Rightarrow> Inl err
      | Inr parts \<Rightarrow> Inr (join (units ''&'') parts))"
| "encode_loop [] prefix parts = Inr parts"
| "encode_loop ((key, value) # rest) prefix parts =
     (let fullKey = (if prefix \<noteq> [] then prefix @ units ''['' @ key @ units '']'' else key) in
      if value \<noteq> PNull \<and> value \<noteq> PUndefined then
        (case value of
           PObj entries \<Rightarrow>
             (case encodeStripeParams entries fullKey of
                Inl err \<Rightarrow> Inl err
              | Inr s \<Rightarrow>
                  encode_loop rest prefix
                    (parts @ filter (\<lambda>p. p \<noteq> []) (split_on (code_unit CHR ''&'') s)))
         | PArr elements \<Rightarrow>
             (case encode_elements fullKey 0 elements of
                Inl err \<Rightarrow> Inl err
              | Inr ps \<Rightarrow> encode_loop rest prefix (parts @ ps))
         | _ \<Rightarrow>
             (case encodeURIComponent value of
                Inl err \<Rightarrow> Inl err
              | Inr s \<Rightarrow> encode_loop rest prefix (parts @ [fullKey @ units ''='' @ s])))
      else encode_loop rest prefix parts)"
  by pat_completeness auto
termination
  by (relation "measure (\<lambda>x. case x of
          Inl (obj, prefix) \<Rightarrow> 2 * size (PObj obj) + 1
        | Inr (obj, prefix, parts) \<Rightarrow> 2 * size (PObj obj))") auto
section \<open>Re-nesting of the wire form\<close>

text \<open>
  Modelled from the spec: the re-nesting of the wire pairs into a parameter tree. The
  repository has no such function; the spec names it in "Flattening then re-nesting a
  parameter tree with no cyclic references reproduces the original structure exactly" and
  gives the rules of the flattening it inverts: "object keys become bracketed path segments
  (\<^verbatim>\<open>a\<close> nested under \<^verbatim>\<open>b\<close> \<rightarrow> key \<^verbatim>\<open>b[a]\<close>); sequence elements become index-bracketed
  segments (\<^verbatim>\<open>b[0]\<close>, \<^verbatim>\<open>b[1]\<close>, ...); scalar leaves are percent-encoded". So a bracketed
  segment made of digits is the position in a sequence, any other segment is an object key,
  and a leaf is percent-decoded. Each pair is put at its path, the pairs taken in their order
  on the wire.
\<close>

subsection \<open>Percent-decoding\<close>

definition hex_value :: "16 word \<Rightarrow> nat" where
  "hex_value c =
     (let n = unat c in
      if 48 \<le> n \<and> n \<le> 57 then n - 48
      else if 65 \<le> n \<and> n \<le> 70 then n - 55
      else if 97 \<le> n \<and> n \<le> 102 then n - 87
      else 0)"

text \<open>The octets of an escaped text: \<^verbatim>\<open>%XX\<close> is one octet, any other code unit stands for itself.\<close>

fun percent_bytes :: "ustring \<Rightarrow> nat list" where
  "percent_bytes (c # a # b # rest) =
     (if c = code_unit CHR ''%'' then (16 * hex_value a + hex_value b) # percent_bytes rest
      else unat c # percent_bytes (a # b # rest))"
| "percent_bytes (c # rest) = unat c # percent_bytes rest"
| "percent_bytes [] = []"

text \<open>
  The code units of a UTF-8 octet sequence: a lead octet from F0, E0 or C0 on takes three, two
  or one octets more (as far as they are there), and a code point from 10000 on is written as
  its surrogate pair.
\<close>

function utf8_units :: "nat list \<Rightarrow> ustring" where
  "utf8_units [] = []"
| "utf8_units (b # bs) =
     (if 240 \<le> b \<and> 3 \<le> length bs then
        (let cp = (b - 240) * 262144 + (bs ! 0 - 128) * 4096 + (bs ! 1 - 128) * 64 + (bs ! 2 - 128)
         in of_nat (55296 + (cp - 65536) div 1024) # of_nat (56320 + (cp - 65536) mod 1024)
              # utf8_units (drop 3 bs))
      else if 224 \<le> b \<and> 2 \<le> length bs then
        of_nat ((b - 224) * 4096 + (bs ! 0 - 128) * 64 + (bs ! 1 - 128)) # utf8_units (drop 2 bs)
      else if 192 \<le> b \<and> 1 \<le> length bs then
        of_nat ((b - 192) * 64 + (bs ! 0 - 128)) # utf8_units (drop 1 bs)
      else of_nat b # utf8_units bs)"
  by pat_completeness auto
termination
  by (relation "measure length") auto

definition decode :: "ustring \<Rightarrow> ustring" where
  "decode s = utf8_units (percent_bytes s)"

subsection \<open>Keys and paths\<close>

text \<open>The path of a key: \<^verbatim>\<open>a[b][0]\<close> is \<^verbatim>\<open>a\<close>, \<^verbatim>\<open>b\<close>, \<^verbatim>\<open>0\<close>.\<close>

function bracketed :: "ustring \<Rightarrow> ustring list" where
  "bracketed [] = []"
| "bracketed (c # cs) =
     takeWhile (\<lambda>x. x \<noteq> code_unit CHR '']'') cs
       # bracketed (drop 1 (dropWhile (\<lambda>x. x \<noteq> code_unit CHR '']'') cs))"
  by pat_completeness auto
termination
  by (relation "measure length")
     (auto intro!: le_imp_less_Suc le_trans [OF diff_le_self length_dropWhile_le])

definition parse_key :: "ustring \<Rightarrow> ustring list" where
  "parse_key k =
     takeWhile (\<lambda>x. x \<noteq> code_unit CHR ''['') k
       # bracketed (dropWhile (\<lambda>x. x \<noteq> code_unit CHR ''['') k)"

definition parse_part :: "ustring \<Rightarrow> ustring list \<times> ustring" where
  "parse_part part =
     (parse_key (takeWhile (\<lambda>x. x \<noteq> code_unit CHR ''='') part),
      decode (drop 1 (dropWhile (\<lambda>x. x \<noteq> code_unit CHR ''='') part)))"

text \<open>A segment that is an index, and the index it is.\<close>

definition digit_unit :: "16 word \<Rightarrow> bool" where
  "digit_unit c = (48 \<le> unat c \<and> unat c \<le> 57)"

definition all_digits :: "ustring \<Rightarrow> bool" where
  "all_digits s = (s \<noteq> [] \<and> list_all digit_unit s)"

definition index_of :: "ustring \<Rightarrow> nat" where
  "index_of s = foldl (\<lambda>a c. a * 10 + (unat c - 48)) 0 s"

subsection \<open>Putting a leaf at its path\<close>

text \<open>
  \<open>set_at i v xs\<close> is the sequence \<open>xs\<close> with \<open>v\<close> at position \<open>i\<close>, the positions
  between the end of \<open>xs\<close> and \<open>i\<close> left \<^verbatim>\<open>undefined\<close>.
\<close>

definition set_at :: "nat \<Rightarrow> param \<Rightarrow> param list \<Rightarrow> param list" where
  "set_at i v xs =
     (if i < length xs then xs[i := v] else xs @ replicate (i - length xs) PUndefined @ [v])"

definition elements_of :: "param \<Rightarrow> param list" where
  "elements_of v = (case v of PArr xs \<Rightarrow> xs | _ \<Rightarrow> [])"

definition entries_of :: "param \<Rightarrow> (ustring \<times> param) list" where
  "entries_of v = (case v of PObj kvs \<Rightarrow> kvs | _ \<Rightarrow> [])"

definition lookup :: "(ustring \<times> param) list \<Rightarrow> ustring \<Rightarrow> param" where
  "lookup kvs k = (case map_of kvs k of None \<Rightarrow> PUndefined | Some v \<Rightarrow> v)"

text \<open>
  \<open>place_value path v old\<close> is the value \<open>old\<close> with the leaf \<open>v\<close> put at \<open>path\<close>
  under it: at the empty path it is the leaf; under an index it is a sequence, the one that
  \<open>old\<close> is or a new one; under any other segment it is an object likewise.
\<close>

fun place_value :: "ustring list \<Rightarrow> ustring \<Rightarrow> param \<Rightarrow> param" where
  "place_value [] v old = PStr v"
| "place_value (seg # segs) v old =
     (if all_digits seg then
        (let xs = elements_of old; i = index_of seg
         in PArr (set_at i (place_value segs v (if i < length xs then xs ! i else PUndefined)) xs))
      else
        (let kvs = entries_of old
         in PObj (put seg (place_value segs v (lookup kvs seg)) kvs)))"

text \<open>The tree \<open>obj\<close> with a leaf put at a path; the first segment is a key of the tree.\<close>

fun insert_at :: "ustring list \<Rightarrow> ustring \<Rightarrow> (ustring \<times> param) list \<Rightarrow> (ustring \<times> param) list" where
  "insert_at [] v obj = obj"
| "insert_at (k # segs) v obj = put k (place_value segs v (lookup obj k)) obj"

definition renest :: "ustring \<Rightarrow> (ustring \<times> param) list" where
  "renest wire =
     foldl (\<lambda>obj part. case parse_part part of (path, v) \<Rightarrow> insert_at path v obj) []
       (filter (\<lambda>p. p \<noteq> []) (split_on (code_unit CHR ''&'') wire))"

subsection \<open>The trees the wire form can give back\<close>

text \<open>
  A string that \<^verbatim>\<open>encodeURIComponent\<close> accepts: every surrogate in it is part of a pair.
\<close>

fun well_formed :: "ustring \<Rightarrow> bool" where
  "well_formed [] = True"
| "well_formed [c] = (\<not> leading_surrogate c \<and> \<not> trailing_surrogate c)"
| "well_formed (c # d # rest) =
     (if leading_surrogate c then trailing_surrogate d \<and> well_formed rest
      else \<not> trailing_surrogate c \<and> well_formed (d # rest))"

text \<open>
  A key that the wire form keeps apart from the syntax around it: not empty, not made of
  digits only (that is an index), and free of \<^verbatim>\<open>&\<close>, \<^verbatim>\<open>=\<close>, \<^verbatim>\<open>[\<close> and \<^verbatim>\<open>]\<close>.
\<close>

definition plain_segment :: "ustring \<Rightarrow> bool" where
  "plain_segment s = list_all (\<lambda>c. c \<notin> set (units ''&=[]'')) s"

definition wire_key :: "ustring \<Rightarrow> bool" where
  "wire_key k = (k \<noteq> [] \<and> \<not> all_digits k \<and> plain_segment k)"

fun is_text :: "param \<Rightarrow> bool" where
  "is_text (PStr s) = well_formed s"
| "is_text v = False"

text \<open>
  A tree whose leaves are strings that can be encoded, whose sequences hold such strings
  only, whose nested objects and sequences are not empty, and whose keys are as above and
  differ within an object.
\<close>

fun wire_value :: "param \<Rightarrow> bool"
  and wire_entries :: "(ustring \<times> param) list \<Rightarrow> bool" where
  "wire_value (PStr s) = well_formed s"
| "wire_value (PArr elements) = (elements \<noteq> [] \<and> list_all is_text elements)"
| "wire_value (PObj entries) = (entries \<noteq> [] \<and> wire_entries entries)"
| "wire_value v = False"
| "wire_entries [] = True"
| "wire_entries ((k, v) # rest) =
     (wire_key k \<and> k \<notin> fst ` set rest \<and> wire_value v \<and> wire_entries rest)"

text \<open>The tree without its \<^verbatim>\<open>null\<close> and \<^verbatim>\<open>undefined\<close> entries.\<close>

function drop_nulls :: "(ustring \<times> param) list \<Rightarrow> (ustring \<times> param) list" where
  "drop_nulls [] = []"
| "drop_nulls ((k, v) # rest) =
     (if v = PNull \<or> v = PUndefined then drop_nulls rest
      else (case v of
              PObj entries \<Rightarrow> (k, PObj (drop_nulls entries)) # drop_nulls rest
            | _ \<Rightarrow> (k, v) # drop_nulls rest))"
  by pat_completeness auto
termination
  by (relation "measure (\<lambda>obj. size (PObj obj))") auto

text \<open>
  The leaves of a tree with their paths, in the order of the entries, and the wire pair of
  a leaf: its key rendered with brackets, and its text escaped.
\<close>

fun the_text :: "param \<Rightarrow> ustring" where
  "the_text (PStr s) = s"
| "the_text v = []"

fun leaf_paths_value :: "param \<Rightarrow> (ustring list \<times> ustring) list"
  and leaf_paths :: "(ustring \<times> param) list \<Rightarrow> (ustring list \<times> ustring) list" where
  "leaf_paths_value (PStr s) = [([], s)]"
| "leaf_paths_value (PArr elements) =
     map (\<lambda>(i, v). ([units (dec_nat i)], the_text v)) (enumerate 0 elements)"
| "leaf_paths_value (PObj entries) = leaf_paths entries"
| "leaf_paths_value v = []"
| "leaf_paths [] = []"
| "leaf_paths ((k, v) # rest) = map (\<lambda>(p, s). (k # p, s)) (leaf_paths_value v) @ leaf_paths rest"

definition render_key :: "ustring list \<Rightarrow> ustring" where
  "render_key path =
     (case path of [] \<Rightarrow> [] | k # segs \<Rightarrow> k @ concat (map (\<lambda>s. units ''['' @ s @ units '']'') segs))"

definition escaped :: "ustring \<Rightarrow> ustring" where
  "escaped s = (case encode s of Inl err \<Rightarrow> [] | Inr e \<Rightarrow> e)"

definition wire_part :: "ustring list \<Rightarrow> ustring list \<times> ustring \<Rightarrow> ustring" where
  "wire_part pre leaf = (case leaf of (p, s) \<Rightarrow> render_key (pre @ p) @ units ''='' @ escaped s)"

text \<open>Notions used to state how the wire form is built and read back.\<close>

definition brackets :: "ustring list \<Rightarrow> ustring" where
  "brackets segs = concat (map (\<lambda>s. units ''['' @ s @ units '']'') segs)"

definition path_ok :: "ustring list \<Rightarrow> bool" where
  "path_ok pre = (list_all plain_segment pre \<and> (case pre of [] \<Rightarrow> True | k # segs \<Rightarrow> k \<noteq> []))"

definition place :: "(ustring \<times> param) list \<Rightarrow> ustring list \<times> ustring \<Rightarrow> (ustring \<times> param) list" where
  "place obj leaf = (case leaf of (p, s) \<Rightarrow> insert_at p s obj)"

definition place_leaf :: "param \<Rightarrow> ustring list \<times> ustring \<Rightarrow> param" where
  "place_leaf old leaf = (case leaf of (p, s) \<Rightarrow> place_value p s old)"
section \<open>Properties of the signature verification\<close>

lemma split_on_not_Nil: "split_on sep s \<noteq> []"
  by (induction s) (auto split: list.splits)



lemma split_on_no_sep: "sep \<notin> set s \<Longrightarrow> split_on sep s = [s]"
  by (induction s) auto

lemma split_on_append: "sep \<notin> set a \<Longrightarrow> split_on sep (a @ sep # b) = a # split_on sep b"
  by (induction a) auto

lemma hex_digit_range: "d < 16 \<Longrightarrow> hex_digit d \<in> set ''0123456789abcdef''"
  unfolding hex_digit_def by (rule nth_mem) simp

lemma hex_digit_char: "d < 16 \<Longrightarrow> hex_char (hex_digit d)"
  unfolding hex_char_def by (rule hex_digit_range)

lemma toString16_chars: "c \<in> set (padStart2 (toString16 b)) \<Longrightarrow> hex_char c"
proof -
  assume c: "c \<in> set (padStart2 (toString16 b))"
  have "unat b < 256" using unsigned_less [of b, where 'a=nat] by simp
  then have 1: "unat b div 16 < 16" by simp
  have 2: "unat b mod 16 < 16" by simp
  have 0: "hex_char CHR ''0''" by (simp add: hex_char_def)
  show ?thesis
  proof (cases "unat b < 16")
    case True
    with c have "c = CHR ''0'' \<or> c = hex_digit (unat b)"
      by (auto simp: padStart2_def toString16_def)
    with True 0 show ?thesis using hex_digit_char by auto
  next
    case False
    with c have "c = hex_digit (unat b div 16) \<or> c = hex_digit (unat b mod 16)"
      by (auto simp: padStart2_def toString16_def)
    with 1 2 show ?thesis using hex_digit_char by auto
  qed
qed

lemma hex_chars: "c \<in> set (hex bs) \<Longrightarrow> hex_char c"
  using toString16_chars by (auto simp: hex_def)

lemma hex_char_not_sep: "hex_char c \<Longrightarrow> c \<noteq> CHR '','' \<and> c \<noteq> CHR ''='' \<and> c \<noteq> CHR ''x''"
  by (auto simp: hex_char_def)

lemma length_hex: "length (hex bs) = 2 * length bs"
  by (induction bs) (auto simp: hex_def padStart2_def toString16_def)



lemma key_value_eq: "CHR ''='' \<notin> set k \<Longrightarrow> CHR ''='' \<notin> set v \<Longrightarrow> key_value (k @ CHR ''='' # v) = (k, Some v)"
  by (simp add: key_value_def split_on_append split_on_no_sep)

lemma of_char_digit_char: "d < 10 \<Longrightarrow> (of_char (digit_char d) :: nat) = 48 + d"
  by (simp add: digit_char_def)

lemma dec_digit_digit_char: "d < 10 \<Longrightarrow> dec_digit (digit_char d)"
  by (simp add: dec_digit_def of_char_digit_char)

lemma dec_nat_small: "n < 10 \<Longrightarrow> dec_nat n = [digit_char n]"
  by (subst dec_nat.simps) simp

lemma dec_nat_big: "\<not> n < 10 \<Longrightarrow> dec_nat n = dec_nat (n div 10) @ [digit_char (n mod 10)]"
  by (subst dec_nat.simps) simp

lemma dec_nat_digits: "c \<in> set (dec_nat n) \<Longrightarrow> dec_digit c"
proof (induction n arbitrary: c rule: dec_nat.induct)
  case (1 n)
  show ?case
  proof (cases "n < 10")
    case True
    with "1.prems" show ?thesis by (simp add: dec_nat_small dec_digit_digit_char)
  next
    case False
    then have "dec_nat n = dec_nat (n div 10) @ [digit_char (n mod 10)]"
      by (rule dec_nat_big)
    with "1.prems" have "c \<in> set (dec_nat (n div 10)) \<or> c = digit_char (n mod 10)" by auto
    then show ?thesis using "1.IH" [OF False] dec_digit_digit_char [of "n mod 10"] by auto
  qed
qed

lemma dec_nat_not_Nil: "dec_nat n \<noteq> []"
  by (cases "n < 10") (simp_all add: dec_nat_small dec_nat_big)

lemma dec_digit_facts:
  "dec_digit c \<Longrightarrow> \<not> is_white_space c \<and> c \<noteq> CHR ''-'' \<and> c \<noteq> CHR ''+'' \<and> c \<noteq> CHR ''x'' \<and> c \<noteq> CHR ''X''
     \<and> c \<noteq> CHR '','' \<and> c \<noteq> CHR ''='' \<and> is_digit_in 10 c"
  by (auto simp: dec_digit_def is_white_space_def is_digit_in_def digit_of_def Let_def)

lemma digit_of_digit_char: "d < 10 \<Longrightarrow> digit_of (digit_char d) = Some d"
  by (simp add: digit_of_def of_char_digit_char Let_def)

lemma digits_value_snoc:
  "digits_value R (ds @ [c]) = digits_value R ds * R + (case digit_of c of None \<Rightarrow> 0 | Some d \<Rightarrow> d)"
  by (simp add: digits_value_def)

lemma digits_value_dec_nat: "digits_value 10 (dec_nat n) = n"
proof (induction n rule: dec_nat.induct)
  case (1 n)
  show ?case
  proof (cases "n < 10")
    case True
    then show ?thesis by (simp add: dec_nat_small digits_value_def digit_of_digit_char)
  next
    case False
    then have eq: "dec_nat n = dec_nat (n div 10) @ [digit_char (n mod 10)]"
      by (rule dec_nat_big)
    show ?thesis
      unfolding eq digits_value_snoc using "1.IH" [OF False]
      by (simp add: digit_of_digit_char)
  qed
qed

lemma parseInt_dec_nat: "parseInt (dec_nat n) = Some (int n)"
proof -
  obtain c cs where s: "dec_nat n = c # cs"
    using dec_nat_not_Nil [of n] by (cases "dec_nat n") auto
  have all: "\<And>x. x \<in> set (dec_nat n) \<Longrightarrow> dec_digit x" by (rule dec_nat_digits)
  have c: "dec_digit c" using all s by simp
  have ws: "dropWhile is_white_space (dec_nat n) = dec_nat n"
    using c dec_digit_facts [of c] s by simp
  have sg: "strip_sign (dec_nat n) = (1, dec_nat n)"
    using c dec_digit_facts [of c] s by (simp add: strip_sign_def)
  have "CHR ''x'' \<notin> set (dec_nat n)" "CHR ''X'' \<notin> set (dec_nat n)"
    using all dec_digit_facts by blast+
  then have "CHR ''x'' \<notin> set (take 2 (dec_nat n))" "CHR ''X'' \<notin> set (take 2 (dec_nat n))"
    by (metis in_set_takeD)+
  then have "take 2 (dec_nat n) \<noteq> ''0x''" "take 2 (dec_nat n) \<noteq> ''0X''"
    by auto
  then have rx: "strip_radix (dec_nat n) = (10, dec_nat n)"
    by (simp add: strip_radix_def)
  have tw: "takeWhile (is_digit_in 10) (dec_nat n) = dec_nat n"
    using all dec_digit_facts by (simp add: takeWhile_eq_all_conv)
  show ?thesis
    by (simp add: parseInt_def ws sg rx tw dec_nat_not_Nil digits_value_dec_nat)
qed

lemma parseInt_dec_int: "parseInt (dec_int i) = Some i"
proof (cases "i < 0")
  case False
  then show ?thesis by (simp add: dec_int_def parseInt_dec_nat)
next
  case True
  let ?s = "dec_nat (nat (- i))"
  obtain c cs where s: "?s = c # cs"
    using dec_nat_not_Nil [of "nat (- i)"] by (cases ?s) auto
  have all: "\<And>x. x \<in> set ?s \<Longrightarrow> dec_digit x" by (rule dec_nat_digits)
  have "CHR ''x'' \<notin> set ?s" "CHR ''X'' \<notin> set ?s"
    using all dec_digit_facts by blast+
  then have "CHR ''x'' \<notin> set (take 2 ?s)" "CHR ''X'' \<notin> set (take 2 ?s)"
    by (metis in_set_takeD)+
  then have "take 2 ?s \<noteq> ''0x''" "take 2 ?s \<noteq> ''0X''"
    by auto
  then have rx: "strip_radix ?s = (10, ?s)"
    by (simp add: strip_radix_def)
  have tw: "takeWhile (is_digit_in 10) ?s = ?s"
    using all dec_digit_facts by (simp add: takeWhile_eq_all_conv)
  have ws: "\<not> is_white_space CHR ''-''" by (simp add: is_white_space_def)
  show ?thesis using True
    by (simp add: dec_int_def parseInt_def ws strip_sign_def rx tw dec_nat_not_Nil digits_value_dec_nat)
qed

lemma dec_int_chars: "c \<in> set (dec_int i) \<Longrightarrow> c \<noteq> CHR '','' \<and> c \<noteq> CHR ''=''"
  using dec_nat_digits dec_digit_facts by (auto simp: dec_int_def split: if_splits)

lemma dec_int_not_Nil: "dec_int i \<noteq> []"
  by (simp add: dec_int_def dec_nat_not_Nil)



lemma split_header_two:
  "no_sep ts \<Longrightarrow> no_sep a \<Longrightarrow>
   split_on CHR '','' (''t='' @ ts @ '',v1='' @ a) = [''t='' @ ts, ''v1='' @ a]"
  using split_on_append [of "CHR '',''" "''t='' @ ts" "''v1='' @ a"]
        split_on_no_sep [of "CHR '',''" "''v1='' @ a"]
  by (simp add: no_sep_def)

lemma split_header_three:
  "no_sep ts \<Longrightarrow> no_sep a \<Longrightarrow> no_sep b \<Longrightarrow>
   split_on CHR '','' (''t='' @ ts @ '',v1='' @ a @ '',v1='' @ b) = [''t='' @ ts, ''v1='' @ a, ''v1='' @ b]"
  using split_on_append [of "CHR '',''" "''t='' @ ts" "''v1='' @ a @ '',v1='' @ b"]
        split_on_append [of "CHR '',''" "''v1='' @ a" "''v1='' @ b"]
        split_on_no_sep [of "CHR '',''" "''v1='' @ b"]
  by (simp add: no_sep_def)

lemma key_value_t: "no_sep ts \<Longrightarrow> key_value (''t='' @ ts) = (''t'', Some ts)"
  using key_value_eq [of "''t''" ts] by (simp add: no_sep_def)

lemma key_value_v1: "no_sep a \<Longrightarrow> key_value (''v1='' @ a) = (''v1'', Some a)"
  using key_value_eq [of "''v1''" a] by (simp add: no_sep_def)

lemma header_parts_two:
  assumes "no_sep ts" and "no_sep a"
  shows "header_parts (''t='' @ ts @ '',v1='' @ a) = [(''t'', Some ts), (''v1'', Some a)]"
proof -
  have "header_parts (''t='' @ ts @ '',v1='' @ a)
          = assign ''v1'' (Some a) (assign ''t'' (Some ts) [])"
    by (simp only: header_parts_def split_header_two [OF assms] foldl.simps
          key_value_t [OF assms(1)] key_value_v1 [OF assms(2)] prod.case)
  then show ?thesis by (simp add: assign_def)
qed

lemma header_parts_three:
  assumes "no_sep ts" and "no_sep a" and "no_sep b"
  shows "header_parts (''t='' @ ts @ '',v1='' @ a @ '',v1='' @ b) = [(''t'', Some ts), (''v1'', Some b)]"
proof -
  have "header_parts (''t='' @ ts @ '',v1='' @ a @ '',v1='' @ b)
          = assign ''v1'' (Some b) (assign ''v1'' (Some a) (assign ''t'' (Some ts) []))"
    by (simp only: header_parts_def split_header_three [OF assms] foldl.simps
          key_value_t [OF assms(1)] key_value_v1 [OF assms(2)] key_value_v1 [OF assms(3)] prod.case)
  then show ?thesis by (simp add: assign_def)
qed

lemma no_sep_hex: "no_sep (hex bs)"
  using hex_chars hex_char_not_sep unfolding no_sep_def by blast

lemma no_sep_computed: "no_sep (computed_signature hm secret ts payload)"
  by (simp add: computed_signature_def no_sep_hex)

lemma no_sep_dec_int: "no_sep (dec_int i)"
  using dec_int_chars unfolding no_sep_def by blast

lemma computed_not_x: "computed_signature hm secret ts payload \<noteq> ''x''"
proof
  assume "computed_signature hm secret ts payload = ''x''"
  then have "CHR ''x'' \<in> set (hex (hm secret (ts @ ''.'' @ payload)))"
    by (simp add: computed_signature_def)
  then show False using hex_chars hex_char_not_sep by blast
qed

lemma header_parts_Nil: "header_parts [] = [([], None)]"
  by (simp add: header_parts_def key_value_def assign_def)

lemma timestamp_of_Nil: "timestamp_of [] = None"
  by (simp add: timestamp_of_def header_parts_Nil)

lemma verify_parts:
  assumes "h \<noteq> []" and "header_parts h = [(''t'', Some ts), (''v1'', Some sg)]" and "ts \<noteq> []"
  shows "verifyStripeSignature hm now payload (Some h) secret =
           (if outside_tolerance now ts then Inl OutsideTolerance
            else if computed_signature hm secret ts payload = sg then Inr ()
            else Inl SignatureMismatch)"
  using assms by (simp add: verifyStripeSignature_def timestamp_of_def signatures_of_def)

lemmas parseInt_defs = parseInt_def is_white_space_def strip_sign_def strip_radix_def
  is_digit_in_def digit_of_def digits_value_def

lemma parseInt_1700000000: "parseInt ''1700000000'' = Some 1700000000"
  by (simp add: parseInt_defs)

text \<open>
  Claim C1 (a header with two \<^verbatim>\<open>v1\<close> values, one of them the right signature, verifies).
  The reduction stores the parts in an object, so a second \<^verbatim>\<open>v1\<close> replaces the first, and
  the list \<open>signatures\<close> never holds more than one value. At the header
  \<^verbatim>\<open>t=1700000000,v1=<right signature>,v1=x\<close>, within the tolerance, whatever the keyed hash,
  payload and secret are, the function throws \<^verbatim>\<open>Signature mismatch\<close>.
\<close>

theorem duplicate_v1_keeps_last:
  "verifyStripeSignature hm 1700000000 payload
     (Some (''t=1700000000,v1='' @ computed_signature hm secret ''1700000000'' payload @ '',v1=x''))
     secret = Inl SignatureMismatch"
proof -
  let ?sg = "computed_signature hm secret ''1700000000'' payload"
  let ?h = "''t='' @ ''1700000000'' @ '',v1='' @ ?sg @ '',v1='' @ ''x''"
  have ts: "no_sep ''1700000000''" and x: "no_sep ''x''" by (simp_all add: no_sep_def)
  have hp: "header_parts ?h = [(''t'', Some ''1700000000''), (''v1'', Some ''x'')]"
    by (rule header_parts_three [OF ts no_sep_computed x])
  have ne: "?h \<noteq> []" and tne: "''1700000000'' \<noteq> []" by simp_all
  have "verifyStripeSignature hm 1700000000 payload (Some ?h) secret = Inl SignatureMismatch"
    unfolding verify_parts [OF ne hp tne]
    using computed_not_x [of hm secret "''1700000000''" payload]
    by (simp add: outside_tolerance_def parseInt_1700000000 tolerance_def)
  then show ?thesis by simp
qed

lemma byte_hex: "padStart2 (toString16 b) = [''0123456789abcdef'' ! (unat b div 16), ''0123456789abcdef'' ! (unat b mod 16)]"
  by (simp add: padStart2_def toString16_def hex_digit_def)

lemma hex_hex_digits: "hex bytes = hex_digits bytes"
  by (simp add: hex_def hex_digits_def byte_hex)

lemma map_fst_put:
  "map fst (put k v acc) = (if k \<in> set (map fst acc) then map fst acc else map fst acc @ [k])"
  by (induction acc) force+

lemma distinct_put2: "distinct (map fst acc) \<Longrightarrow> distinct (map fst (put k v acc))"
  by (simp add: map_fst_put)

lemma filter_put:
  "distinct (map fst acc) \<Longrightarrow>
   filter (\<lambda>(k', v'). k' = key) (put k v acc)
     = (if k = key then [(k, v)] else filter (\<lambda>(k', v'). k' = key) acc)"
proof (induction acc)
  case Nil
  then show ?case by simp
next
  case (Cons a acc)
  obtain k' v' where a: "a = (k', v')" by (cases a)
  have n: "k' \<notin> fst ` set acc" and d: "distinct (map fst acc)" using Cons.prems a by auto
  have e: "k' = key \<Longrightarrow> filter (\<lambda>(k', v'). k' = key) acc = []"
    using n by (auto simp: filter_empty_conv image_iff)
  show ?case using Cons.IH [OF d] e by (auto simp: a)
qed

lemma fold_v1:
  "distinct (map fst acc) \<Longrightarrow>
   map snd (filter (\<lambda>(k, v). k = ''v1'')
       (foldl (\<lambda>acc part. case key_value part of (k, v) \<Rightarrow> assign k v acc) acc parts))
     = (if map snd (filter (\<lambda>(k, v). k = ''v1'') (map key_value parts)) = []
        then map snd (filter (\<lambda>(k, v). k = ''v1'') acc)
        else [last (map snd (filter (\<lambda>(k, v). k = ''v1'') (map key_value parts)))])"
proof (induction parts arbitrary: acc)
  case Nil
  then show ?case by simp
next
  case (Cons p ps)
  obtain k v where kv: "key_value p = (k, v)" by (cases "key_value p")
  have d: "distinct (map fst (assign k v acc))"
    using Cons.prems by (simp add: assign_def distinct_put2)
  have f: "filter (\<lambda>(k, v). k = ''v1'') (assign k v acc)
             = (if k = ''v1'' then [(k, v)] else filter (\<lambda>(k, v). k = ''v1'') acc)"
    using filter_put [OF Cons.prems, of "''v1''" k v] by (auto simp: assign_def)
  show ?case
    using Cons.IH [OF d] by (simp add: kv f)
qed

lemma signatures_of_carried:
  "signatures_of h = (if carried_v1 h = [] then [] else [last (carried_v1 h)])"
  using fold_v1 [of "[]" "split_on CHR '','' h"]
  by (simp add: signatures_of_def header_parts_def carried_v1_def)

lemma carried_v1_three:
  assumes "no_sep ts" and "no_sep a" and "no_sep b"
  shows "carried_v1 (''t='' @ ts @ '',v1='' @ a @ '',v1='' @ b) = [Some a, Some b]"
  by (simp only: carried_v1_def split_header_three [OF assms] list.map
        key_value_t [OF assms(1)] key_value_v1 [OF assms(2)] key_value_v1 [OF assms(3)])
     simp

lemma dec_int_1700000000: "dec_int 1700000000 = ''1700000000''"
  by (simp add: dec_int_def dec_nat_big dec_nat_small digit_char_def char_of_eq_iff)

text \<open>
  Claim C2 (a correctly signed header within the tolerance verifies; verification succeeds
  exactly when the computed signature is among the collected \<^verbatim>\<open>v1\<close> values). For every
  keyed hash, payload \<open>P\<close>, secret \<open>S\<close> and integer \<open>T\<close> within 300 seconds of
  \<open>now\<close>, the header \<^verbatim>\<open>t=T,v1=hex(HMAC(S, "T.P"))\<close> verifies. Of the \<^verbatim>\<open>v1\<close> values a
  header carries, the function tries the last one only: for every header whose timestamp is
  \<open>T\<close>, it succeeds exactly when the last \<^verbatim>\<open>v1\<close> value is the right signature. So the
  header \<^verbatim>\<open>t=T,v1=<right signature>,v1=x\<close> has the right signature among the \<^verbatim>\<open>v1\<close>
  values it carries and is rejected with \<^verbatim>\<open>Signature mismatch\<close>.
\<close>

theorem verification_tries_last_v1_only:
  assumes "\<bar>now - T\<bar> \<le> 300"
  shows "verifyStripeSignature hm now P
           (Some (''t='' @ dec_int T @ '',v1='' @ hex_digits (hm S (dec_int T @ ''.'' @ P)))) S = Inr ()
       \<and> (\<forall>h. timestamp_of h = Some (dec_int T) \<longrightarrow>
             (verifyStripeSignature hm now P (Some h) S = Inr ()
                \<longleftrightarrow> carried_v1 h \<noteq> []
                    \<and> last (carried_v1 h) = Some (hex_digits (hm S (dec_int T @ ''.'' @ P)))))
       \<and> Some (hex_digits (hm S (dec_int T @ ''.'' @ P)))
             \<in> set (carried_v1 (''t='' @ dec_int T @ '',v1='' @ hex_digits (hm S (dec_int T @ ''.'' @ P)) @ '',v1=x''))
       \<and> verifyStripeSignature hm now P
           (Some (''t='' @ dec_int T @ '',v1='' @ hex_digits (hm S (dec_int T @ ''.'' @ P)) @ '',v1=x'')) S
           = Inl SignatureMismatch"
proof -
  let ?sg = "hex_digits (hm S (dec_int T @ ''.'' @ P))"
  have sg: "computed_signature hm S (dec_int T) P = ?sg"
    by (simp add: computed_signature_def hex_hex_digits)
  have ns: "no_sep ?sg" using no_sep_computed [of hm S "dec_int T" P] unfolding sg .
  have x: "no_sep ''x''" by (simp add: no_sep_def)
  have nx: "?sg \<noteq> ''x''" using computed_not_x [of hm S "dec_int T" P] unfolding sg .
  have tol: "\<not> outside_tolerance now (dec_int T)"
    using assms by (simp add: outside_tolerance_def parseInt_dec_int tolerance_def)
  have one: "verifyStripeSignature hm now P (Some (''t='' @ dec_int T @ '',v1='' @ ?sg)) S = Inr ()"
  proof -
    have hp: "header_parts (''t='' @ dec_int T @ '',v1='' @ ?sg) = [(''t'', Some (dec_int T)), (''v1'', Some ?sg)]"
      by (rule header_parts_two [OF no_sep_dec_int ns])
    have ne: "''t='' @ dec_int T @ '',v1='' @ ?sg \<noteq> []" by simp
    show ?thesis
      unfolding verify_parts [OF ne hp dec_int_not_Nil] using tol sg by simp
  qed
  have iff: "verifyStripeSignature hm now P (Some h) S = Inr ()
                \<longleftrightarrow> carried_v1 h \<noteq> [] \<and> last (carried_v1 h) = Some ?sg"
    if t: "timestamp_of h = Some (dec_int T)" for h
  proof -
    have "h \<noteq> []" using t timestamp_of_Nil by auto
    then show ?thesis
      using t tol by (auto simp: verifyStripeSignature_def dec_int_not_Nil signatures_of_carried sg)
  qed
  let ?h = "''t='' @ dec_int T @ '',v1='' @ ?sg @ '',v1='' @ ''x''"
  have c3: "carried_v1 ?h = [Some ?sg, Some ''x'']"
    by (rule carried_v1_three [OF no_sep_dec_int ns x])
  have two: "verifyStripeSignature hm now P (Some ?h) S = Inl SignatureMismatch"
  proof -
    have hp: "header_parts ?h = [(''t'', Some (dec_int T)), (''v1'', Some ''x'')]"
      by (rule header_parts_three [OF no_sep_dec_int ns x])
    have ne: "?h \<noteq> []" by simp
    show ?thesis
      unfolding verify_parts [OF ne hp dec_int_not_Nil] using tol sg nx by simp
  qed
  have mem: "Some ?sg \<in> set (carried_v1 ?h)" unfolding c3 by simp
  show ?thesis using one iff mem two by simp
qed

theorem verification_tries_last_v1_only_witness:
  "\<bar>1700000100 - 1700000000\<bar> \<le> (300 :: int)
   \<and> verifyStripeSignature (\<lambda>key message. [0, 15, 165, 255]) 1700000100 ''{}''
         (Some ''t=1700000000,v1=000fa5ff'') ''whsec_1'' = Inr ()
   \<and> verifyStripeSignature (\<lambda>key message. [0, 15, 165, 255]) 1700000100 ''{}''
         (Some ''t=1700000000,v1=000fa5ff,v1=x'') ''whsec_1'' = Inl SignatureMismatch"
proof -
  have h: "\<bar>1700000100 - 1700000000\<bar> \<le> (300 :: int)" by simp
  have d: "hex_digits [0, 15, 165, 255] = ''000fa5ff''" by (simp add: hex_digits_def)
  show ?thesis
    using verification_tries_last_v1_only [OF h, of "\<lambda>key message. [0, 15, 165, 255]" "''{}''" "''whsec_1''"]
    by (simp add: dec_int_1700000000 d)
qed







section \<open>Properties of the Stripe worker\<close>


lemma verification_configured:
  "STRIPE_WEBHOOK_SECRET e = Some secret \<Longrightarrow> secret \<noteq> [] \<Longrightarrow>
   verification rt e req =
     verifyStripeSignature (hmac rt) (seconds rt) (req_body req) (req_signature req) secret"
  by (simp add: verification_def)

lemma verification_parse_independent:
  "verification (rt\<lparr>JSON_parse := parse\<rparr>) e req = verification rt e req"
  by (simp add: verification_def split: option.splits)

lemma handleWebhook_rejected:
  "verification rt e req = Inl err \<Longrightarrow>
   handleWebhook rt e req =
     (Inr \<lparr>status = 400, headers = [(''content-type'', ''text/plain;charset=UTF-8'')],
            body = Text (''Webhook signature verification failed: '' @ verify_message err)\<rparr>, [])"
  by (simp add: handleWebhook_def text_response_def)

lemma handleWebhook_acknowledged:
  assumes "handleWebhook rt e req = (Inr r, fx)" and "body r = acknowledgement"
  shows "verification rt e req = Inr ()
         \<and> (\<exists>event line. JSON_parse rt (req_body req) = Some event
               \<and> dispatch_event event = Inr line \<and> fx = [ConsoleLog line])"
  using assms
  by (auto simp: handleWebhook_def text_response_def json_response_def acknowledgement_def
           split: sum.splits option.splits)


text \<open>
  Claim C3. With the webhook secret configured: when the signature verification fails, the
  handler returns the 400 text response and writes no line, whatever \<^verbatim>\<open>JSON.parse\<close> would
  do with the body (it is not called); and the handler returns the acknowledgement only when
  the verification succeeded and the body parsed (and then one line was written for the
  event).
\<close>

theorem webhook_never_partially_acknowledges:
  assumes "STRIPE_WEBHOOK_SECRET e = Some secret" and "secret \<noteq> []"
  shows "(\<forall>err. verifyStripeSignature (hmac rt) (seconds rt) (req_body req) (req_signature req) secret = Inl err \<longrightarrow>
            (\<forall>parse. handleWebhook (rt\<lparr>JSON_parse := parse\<rparr>) e req =
               (Inr \<lparr>status = 400, headers = [(''content-type'', ''text/plain;charset=UTF-8'')],
                      body = Text (''Webhook signature verification failed: '' @ verify_message err)\<rparr>, [])))
       \<and> (\<forall>r fx. handleWebhook rt e req = (Inr r, fx) \<and> body r = acknowledgement \<longrightarrow>
            verifyStripeSignature (hmac rt) (seconds rt) (req_body req) (req_signature req) secret = Inr ()
            \<and> (\<exists>event line. JSON_parse rt (req_body req) = Some event
                  \<and> dispatch_event event = Inr line \<and> fx = [ConsoleLog line]))"
proof (intro conjI allI impI)
  fix err parse
  assume "verifyStripeSignature (hmac rt) (seconds rt) (req_body req) (req_signature req) secret = Inl err"
  then have "verification (rt\<lparr>JSON_parse := parse\<rparr>) e req = Inl err"
    using assms by (simp add: verification_parse_independent verification_configured)
  then show "handleWebhook (rt\<lparr>JSON_parse := parse\<rparr>) e req =
               (Inr \<lparr>status = 400, headers = [(''content-type'', ''text/plain;charset=UTF-8'')],
                      body = Text (''Webhook signature verification failed: '' @ verify_message err)\<rparr>, [])"
    by (rule handleWebhook_rejected)
next
  fix r fx
  assume a: "handleWebhook rt e req = (Inr r, fx) \<and> body r = acknowledgement"
  then have "verification rt e req = Inr ()
         \<and> (\<exists>event line. JSON_parse rt (req_body req) = Some event
               \<and> dispatch_event event = Inr line \<and> fx = [ConsoleLog line])"
    using handleWebhook_acknowledged by blast
  then show "verifyStripeSignature (hmac rt) (seconds rt) (req_body req) (req_signature req) secret = Inr ()"
    and "\<exists>event line. JSON_parse rt (req_body req) = Some event
               \<and> dispatch_event event = Inr line \<and> fx = [ConsoleLog line]"
    using assms by (simp_all add: verification_configured)
qed



lemma verify_tampered:
  "verifyStripeSignature hm 1700000000 payload (Some ''t=1700000000,v1=x'') secret = Inl SignatureMismatch"
proof -
  let ?h = "''t='' @ ''1700000000'' @ '',v1='' @ ''x''"
  have ts: "no_sep ''1700000000''" and x: "no_sep ''x''" by (simp_all add: no_sep_def)
  have ne: "?h \<noteq> []" and tne: "''1700000000'' \<noteq> []" by simp_all
  have "verifyStripeSignature hm 1700000000 payload (Some ?h) secret = Inl SignatureMismatch"
    unfolding verify_parts [OF ne header_parts_two [OF ts x] tne]
    using computed_not_x [of hm secret "''1700000000''" payload]
    by (simp add: outside_tolerance_def parseInt_1700000000 tolerance_def)
  then show ?thesis by simp
qed

theorem webhook_never_partially_acknowledges_witness:
  "STRIPE_WEBHOOK_SECRET \<lparr>STRIPE_SECRET_KEY = Some ''sk_test'', STRIPE_WEBHOOK_SECRET = Some ''whsec'',
                          ALLOWED_ORIGIN = None\<rparr> = Some ''whsec''
   \<and> ''whsec'' \<noteq> []
   \<and> verifyStripeSignature (hmac (offline_runtime [])) (seconds (offline_runtime [])) ''{}''
        (Some ''t=1700000000,v1=x'') ''whsec'' = Inl SignatureMismatch
   \<and> (\<forall>parse. handleWebhook (offline_runtime []\<lparr>JSON_parse := parse\<rparr>)
          \<lparr>STRIPE_SECRET_KEY = Some ''sk_test'', STRIPE_WEBHOOK_SECRET = Some ''whsec'', ALLOWED_ORIGIN = None\<rparr>
          \<lparr>req_method = ''POST'', req_pathname = ''/webhook'', req_origin = None,
           req_signature = Some ''t=1700000000,v1=x'', req_body = ''{}''\<rparr>
        = (Inr \<lparr>status = 400, headers = [(''content-type'', ''text/plain;charset=UTF-8'')],
                 body = Text ''Webhook signature verification failed: Signature mismatch''\<rparr>, []))"
proof -
  let ?e = "\<lparr>STRIPE_SECRET_KEY = Some ''sk_test'', STRIPE_WEBHOOK_SECRET = Some ''whsec'', ALLOWED_ORIGIN = None\<rparr>"
  let ?req = "\<lparr>req_method = ''POST'', req_pathname = ''/webhook'', req_origin = None,
           req_signature = Some ''t=1700000000,v1=x'', req_body = ''{}''\<rparr>"
  have s: "STRIPE_WEBHOOK_SECRET ?e = Some ''whsec''" and n: "''whsec'' \<noteq> []" by simp_all
  have v: "verifyStripeSignature (hmac (offline_runtime [])) (seconds (offline_runtime [])) ''{}''
        (Some ''t=1700000000,v1=x'') ''whsec'' = Inl SignatureMismatch"
    by (simp add: offline_runtime_def verify_tampered)
  show ?thesis
    using webhook_never_partially_acknowledges [OF s n, of "offline_runtime []" ?req] s v
    by simp
qed








lemma handleCheckout_missing:
  assumes "JSON_parse rt (req_body req) = Some b" and "get_prop b ''price_id'' = Inr pid" and "\<not> truthy pid"
  shows "handleCheckout rt e req =
           (Inr \<lparr>status = 400, headers = [(''content-type'', ''application/json'')],
                  body = Json (JObj [(''error'', JStr ''price_id is required'')])\<rparr>, [])"
proof -
  have nn: "b \<noteq> JUndefined" "b \<noteq> JNull" using assms(2) by auto
  have g: "\<And>name. \<exists>v. get_prop b name = Inr v"
    using nn by (cases b) (auto split: option.splits)
  obtain su where su: "get_prop b ''success_url'' = Inr su" using g by blast
  obtain cu where cu: "get_prop b ''cancel_url'' = Inr cu" using g by blast
  obtain ce where ce: "get_prop b ''customer_email'' = Inr ce" using g by blast
  obtain md where md: "get_prop b ''metadata'' = Inr md" using g by blast
  have "checkout_fields b = Inr (pid, su, cu, ce, if md = JUndefined then JObj [] else md)"
    by (simp add: checkout_fields_def then_do_def assms(2) su cu ce md)
  then show ?thesis using assms(1,3)
    by (simp add: handleCheckout_def json_response_def)
qed

lemma handleCheckout_unreadable:
  assumes "JSON_parse rt (req_body req) = None \<or> JSON_parse rt (req_body req) = Some JNull"
  shows "\<exists>err. handleCheckout rt e req = (Inl err, [])"
  using assms by (auto simp: handleCheckout_def checkout_fields_def then_do_def)

lemma fetch_checkout_route:
  assumes "truthy_text (STRIPE_SECRET_KEY e)" and "req_method req = ''POST''" and "req_pathname req = ''/checkout''"
  shows "fetch rt e req =
           (case handleCheckout rt e req of
              (Inr r, fx) \<Rightarrow>
                (with_cors (CORS_HEADERS (first_truthy (first_truthy (req_origin req) (ALLOWED_ORIGIN e)) (Some ''*''))) r, fx)
            | (Inl err, fx) \<Rightarrow>
                (with_cors (CORS_HEADERS (first_truthy (first_truthy (req_origin req) (ALLOWED_ORIGIN e)) (Some ''*'')))
                   (json_response 500 (ErrorJson err)), fx @ [ConsoleError err]))"
  using assms
  by (simp add: fetch_def route_def assigned_def Let_def split: prod.splits sum.splits)

lemma status_with_cors: "status (with_cors c r) = status r" and body_with_cors: "body (with_cors c r) = body r"
  by (simp_all add: with_cors_def)

text \<open>
  Claim C7, as stated, fails: the body \<^verbatim>\<open>null\<close> is valid JSON and lacks the price
  identifier, the destructuring of it throws, and the main handler answers 500, not 400. No
  call to the processor is made.
\<close>

theorem checkout_null_body:
  "handleCheckout (offline_runtime [(''null'', JNull)])
      \<lparr>STRIPE_SECRET_KEY = Some ''sk_test'', STRIPE_WEBHOOK_SECRET = None, ALLOWED_ORIGIN = None\<rparr>
      \<lparr>req_method = ''POST'', req_pathname = ''/checkout'', req_origin = None,
       req_signature = None, req_body = ''null''\<rparr> = (Inl TypeError, [])
   \<and> status (fst (fetch (offline_runtime [(''null'', JNull)])
      \<lparr>STRIPE_SECRET_KEY = Some ''sk_test'', STRIPE_WEBHOOK_SECRET = None, ALLOWED_ORIGIN = None\<rparr>
      \<lparr>req_method = ''POST'', req_pathname = ''/checkout'', req_origin = None,
       req_signature = None, req_body = ''null''\<rparr>)) = 500
   \<and> body (fst (fetch (offline_runtime [(''null'', JNull)])
      \<lparr>STRIPE_SECRET_KEY = Some ''sk_test'', STRIPE_WEBHOOK_SECRET = None, ALLOWED_ORIGIN = None\<rparr>
      \<lparr>req_method = ''POST'', req_pathname = ''/checkout'', req_origin = None,
       req_signature = None, req_body = ''null''\<rparr>)) = ErrorJson TypeError
   \<and> snd (fetch (offline_runtime [(''null'', JNull)])
      \<lparr>STRIPE_SECRET_KEY = Some ''sk_test'', STRIPE_WEBHOOK_SECRET = None, ALLOWED_ORIGIN = None\<rparr>
      \<lparr>req_method = ''POST'', req_pathname = ''/checkout'', req_origin = None,
       req_signature = None, req_body = ''null''\<rparr>) = [ConsoleError TypeError]"
  by (simp add: fetch_def route_def assigned_def handleCheckout_def checkout_fields_def then_do_def
        offline_runtime_def first_truthy_def truthy_text_def with_cors_def json_response_def)

lemma handleCheckout_lacking:
  assumes "\<forall>b pid. JSON_parse rt (req_body req) = Some b \<and> get_prop b ''price_id'' = Inr pid \<longrightarrow> \<not> truthy pid"
  shows "handleCheckout rt e req =
           (case JSON_parse rt (req_body req) of
              None \<Rightarrow> (Inl SyntaxError, [])
            | Some b \<Rightarrow>
                if b = JNull \<or> b = JUndefined then (Inl TypeError, [])
                else (Inr \<lparr>status = 400, headers = [(''content-type'', ''application/json'')],
                            body = Json (JObj [(''error'', JStr ''price_id is required'')])\<rparr>, []))"
proof (cases "JSON_parse rt (req_body req)")
  case None
  then show ?thesis by (simp add: handleCheckout_def)
next
  case (Some b)
  show ?thesis
  proof (cases "b = JNull \<or> b = JUndefined")
    case True
    then show ?thesis using Some
      by (auto simp: handleCheckout_def checkout_fields_def then_do_def)
  next
    case False
    then have "\<exists>pid. get_prop b ''price_id'' = Inr pid"
      by (cases b) (auto split: option.splits)
    then obtain pid where pid: "get_prop b ''price_id'' = Inr pid" ..
    have "\<not> truthy pid" using assms Some pid by blast
    then show ?thesis
      using handleCheckout_missing [OF Some pid] Some False by simp
  qed
qed

text \<open>
  Claim C7, amended. For every checkout request whose body lacks the price identifier (no
  truthy \<^verbatim>\<open>price_id\<close> can be read from it), no call to the processor is made. The handler
  returns the 400 response \<^verbatim>\<open>{error: 'price_id is required'}\<close> when the body is a JSON value
  other than \<^verbatim>\<open>null\<close>; when the body is no JSON or is \<^verbatim>\<open>null\<close> it throws, and the main
  handler answers 500.
\<close>

theorem checkout_without_price_id:
  assumes "\<forall>b pid. JSON_parse rt (req_body req) = Some b \<and> get_prop b ''price_id'' = Inr pid \<longrightarrow> \<not> truthy pid"
  shows "handleCheckout rt e req =
           (case JSON_parse rt (req_body req) of
              None \<Rightarrow> (Inl SyntaxError, [])
            | Some b \<Rightarrow>
                if b = JNull \<or> b = JUndefined then (Inl TypeError, [])
                else (Inr \<lparr>status = 400, headers = [(''content-type'', ''application/json'')],
                            body = Json (JObj [(''error'', JStr ''price_id is required'')])\<rparr>, []))
       \<and> (truthy_text (STRIPE_SECRET_KEY e) \<and> req_method req = ''POST'' \<and> req_pathname req = ''/checkout'' \<longrightarrow>
            (\<forall>call. StripeFetch call \<notin> set (snd (fetch rt e req)))
            \<and> status (fst (fetch rt e req)) =
                (case JSON_parse rt (req_body req) of
                   None \<Rightarrow> 500
                 | Some b \<Rightarrow> if b = JNull \<or> b = JUndefined then 500 else 400))"
proof (intro conjI impI)
  show h: "handleCheckout rt e req =
           (case JSON_parse rt (req_body req) of
              None \<Rightarrow> (Inl SyntaxError, [])
            | Some b \<Rightarrow>
                if b = JNull \<or> b = JUndefined then (Inl TypeError, [])
                else (Inr \<lparr>status = 400, headers = [(''content-type'', ''application/json'')],
                            body = Json (JObj [(''error'', JStr ''price_id is required'')])\<rparr>, []))"
    by (rule handleCheckout_lacking [OF assms])
  assume r: "truthy_text (STRIPE_SECRET_KEY e) \<and> req_method req = ''POST'' \<and> req_pathname req = ''/checkout''"
  have f: "fetch rt e req =
           (case handleCheckout rt e req of
              (Inr r, fx) \<Rightarrow>
                (with_cors (CORS_HEADERS (first_truthy (first_truthy (req_origin req) (ALLOWED_ORIGIN e)) (Some ''*''))) r, fx)
            | (Inl err, fx) \<Rightarrow>
                (with_cors (CORS_HEADERS (first_truthy (first_truthy (req_origin req) (ALLOWED_ORIGIN e)) (Some ''*'')))
                   (json_response 500 (ErrorJson err)), fx @ [ConsoleError err]))"
    using r by (simp add: fetch_checkout_route)
  show "\<forall>call. StripeFetch call \<notin> set (snd (fetch rt e req))"
    unfolding f h by (simp split: option.splits)
  show "status (fst (fetch rt e req)) =
                (case JSON_parse rt (req_body req) of
                   None \<Rightarrow> 500
                 | Some b \<Rightarrow> if b = JNull \<or> b = JUndefined then 500 else 400)"
    unfolding f h by (simp add: status_with_cors json_response_def split: option.splits)
qed

theorem checkout_without_price_id_witness:
  "JSON_parse (offline_runtime [(''{}'', JObj [])]) ''{}'' = Some (JObj [])
   \<and> get_prop (JObj []) ''price_id'' = Inr JUndefined \<and> \<not> truthy JUndefined
   \<and> handleCheckout (offline_runtime [(''{}'', JObj [])])
         \<lparr>STRIPE_SECRET_KEY = Some ''sk_test'', STRIPE_WEBHOOK_SECRET = None, ALLOWED_ORIGIN = None\<rparr>
         \<lparr>req_method = ''POST'', req_pathname = ''/checkout'', req_origin = None,
          req_signature = None, req_body = ''{}''\<rparr>
       = (Inr \<lparr>status = 400, headers = [(''content-type'', ''application/json'')],
                body = Json (JObj [(''error'', JStr ''price_id is required'')])\<rparr>, [])
   \<and> status (fst (fetch (offline_runtime [(''{}'', JObj [])])
         \<lparr>STRIPE_SECRET_KEY = Some ''sk_test'', STRIPE_WEBHOOK_SECRET = None, ALLOWED_ORIGIN = None\<rparr>
         \<lparr>req_method = ''POST'', req_pathname = ''/checkout'', req_origin = None,
          req_signature = None, req_body = ''{}''\<rparr>)) = 400"
proof -
  let ?rt = "offline_runtime [(''{}'', JObj [])]"
  let ?e = "\<lparr>STRIPE_SECRET_KEY = Some ''sk_test'', STRIPE_WEBHOOK_SECRET = None, ALLOWED_ORIGIN = None\<rparr>"
  let ?req = "\<lparr>req_method = ''POST'', req_pathname = ''/checkout'', req_origin = None,
          req_signature = None, req_body = ''{}''\<rparr>"
  have 1: "\<forall>b pid. JSON_parse ?rt (req_body ?req) = Some b \<and> get_prop b ''price_id'' = Inr pid \<longrightarrow> \<not> truthy pid"
    by (auto simp: offline_runtime_def)
  have 2: "JSON_parse ?rt (req_body ?req) = Some (JObj [])" by (simp add: offline_runtime_def)
  have 4: "truthy_text (STRIPE_SECRET_KEY ?e)" by (simp add: truthy_text_def)
  show ?thesis
    using checkout_without_price_id [OF 1, of ?e] 1 2 4 by simp
qed


text \<open>
  Claim C6 lists GET /health among the routes and says every other pair of method and path
  is answered 404. The main handler tests the path \<^verbatim>\<open>/health\<close> without the method (the other
  four routes test both, and the header comment of the file documents \<^verbatim>\<open>GET /health\<close>): a
  POST to /health, with the API key set, is answered 200 with the health document.
\<close>

theorem post_health_is_answered:
  "fetch rt \<lparr>STRIPE_SECRET_KEY = Some ''sk_test'', STRIPE_WEBHOOK_SECRET = None, ALLOWED_ORIGIN = None\<rparr>
     \<lparr>req_method = ''POST'', req_pathname = ''/health'', req_origin = None, req_signature = None,
      req_body = []\<rparr>
   = (\<lparr>status = 200,
        headers = [(''content-type'', ''application/json''),
                   (''access-control-allow-origin'', ''*''),
                   (''access-control-allow-methods'', ''GET, POST, OPTIONS''),
                   (''access-control-allow-headers'', ''Content-Type, Authorization''),
                   (''access-control-max-age'', ''86400'')],
        body = Json (JObj [(''status'', JStr ''ok''), (''worker'', JStr ''stripe-checkout''),
                           (''time'', JStr (iso_time rt))])\<rparr>, [])"
  by (simp add: fetch_def route_def truthy_text_def first_truthy_def CORS_HEADERS_def with_cors_def
        json_response_def health_def Let_def)

lemma unmatched_route_not_found:
  assumes "truthy_text (STRIPE_SECRET_KEY e)" and "req_method req \<noteq> ''OPTIONS''"
    and "req_pathname req \<noteq> ''/health''"
    and "(req_method req, req_pathname req) \<notin>
           {(''POST'', ''/checkout''), (''POST'', ''/portal''), (''POST'', ''/webhook''), (''GET'', ''/prices'')}"
  shows "status (fst (fetch rt e req)) = 404 \<and> body (fst (fetch rt e req)) = not_found
         \<and> snd (fetch rt e req) = []"
  using assms
  by (auto simp: fetch_def route_def Let_def status_with_cors body_with_cors json_response_def)


lemma mset_insert_sorted: "mset (insert_sorted cmp x xs) = add_mset x (mset xs)"
  by (induction xs) auto

lemma mset_sort_by: "mset (sort_by cmp xs) = mset xs"
  by (induction xs) (auto simp: mset_insert_sorted)

lemma set_insert_sorted: "set (insert_sorted cmp x xs) = insert x (set xs)"
  by (induction xs) auto

lemma sorted_insert_amount:
  "sorted (map amount_or_0 xs) \<Longrightarrow> sorted (map amount_or_0 (insert_sorted compare_amount x xs))"
  by (induction xs) (auto simp: compare_amount_def set_insert_sorted)

lemma sorted_sort_by_amount: "sorted (map amount_or_0 (sort_by compare_amount xs))"
  by (induction xs) (auto simp: sorted_insert_amount)

text \<open>Stability: among equal amounts the upstream order is kept.\<close>

lemma filter_insert_sorted:
  "sorted (map amount_or_0 xs) \<Longrightarrow>
   filter (\<lambda>v. amount_or_0 v = k) (insert_sorted compare_amount x xs)
     = (if amount_or_0 x = k then x # filter (\<lambda>v. amount_or_0 v = k) xs
        else filter (\<lambda>v. amount_or_0 v = k) xs)"
proof (induction xs)
  case Nil
  then show ?case by simp
next
  case (Cons y ys)
  show ?case
  proof (cases "compare_amount x y \<le> 0")
    case True
    then show ?thesis by simp
  next
    case False
    then have lt: "amount_or_0 y < amount_or_0 x" by (simp add: compare_amount_def)
    have "filter (\<lambda>v. amount_or_0 v = k) (insert_sorted compare_amount x ys)
     = (if amount_or_0 x = k then x # filter (\<lambda>v. amount_or_0 v = k) ys
        else filter (\<lambda>v. amount_or_0 v = k) ys)"
      using Cons by simp
    then show ?thesis using False lt by auto
  qed
qed

lemma filter_sort_by:
  "filter (\<lambda>v. amount_or_0 v = k) (sort_by compare_amount xs) = filter (\<lambda>v. amount_or_0 v = k) xs"
  by (induction xs) (auto simp: filter_insert_sorted sorted_sort_by_amount)

lemma map_throwing_live:
  "map_throwing format_price (filter live_product data) =
     Inr (concat (map (\<lambda>p. case price_product p of
                None \<Rightarrow> []
              | Some pr \<Rightarrow>
                  if product_deleted pr then []
                  else [\<lparr>view_id = price_id p,
                         view_amount = price_unit_amount p,
                         view_currency = price_currency p,
                         view_interval = map_option recurring_interval (price_recurring p),
                         view_interval_count = map_option recurring_interval_count (price_recurring p),
                         view_product = \<lparr>pv_id = product_id pr, pv_name = product_name pr,
                                           pv_description = product_description pr,
                                           pv_metadata = product_metadata pr\<rparr>\<rparr>]) data))"
  by (induction data) (auto simp: live_product_def format_price_def then_do_def split: option.splits)

lemma amount_or_0_eq: "amount_or_0 = (\<lambda>v. case view_amount v of None \<Rightarrow> 0 | Some n \<Rightarrow> n)"
  by (auto simp: amount_or_0_def fun_eq_iff split: option.splits)

text \<open>
  Claim C8. For every upstream price list, \<open>listPrices\<close> returns (it never throws). Take
  the upstream entries whose product is present and not deleted, in their order, each as the
  reduced view \<^verbatim>\<open>{id, amount, currency, interval, interval_count, product: {id, name,
  description, metadata}}\<close> of its own fields (\<open>interval\<close> and \<open>interval_count\<close> missing
  when the price does not recur): the result holds exactly these views (none lost, none
  added, none changed), in ascending order of the amount, a missing amount counting as 0, and
  views of equal amount keep their upstream order.
\<close>

theorem listPrices_filtered_mapped_sorted:
  "let expected =
         concat (map (\<lambda>p. case price_product p of
                None \<Rightarrow> []
              | Some pr \<Rightarrow>
                  if product_deleted pr then []
                  else [\<lparr>view_id = price_id p,
                         view_amount = price_unit_amount p,
                         view_currency = price_currency p,
                         view_interval = map_option recurring_interval (price_recurring p),
                         view_interval_count = map_option recurring_interval_count (price_recurring p),
                         view_product = \<lparr>pv_id = product_id pr, pv_name = product_name pr,
                                           pv_description = product_description pr,
                                           pv_metadata = product_metadata pr\<rparr>\<rparr>]) data)
   in \<exists>views. listPrices data = Inr views
        \<and> mset views = mset expected
        \<and> sorted (map (\<lambda>v. case view_amount v of None \<Rightarrow> 0 | Some n \<Rightarrow> n) views)
        \<and> (\<forall>k. filter (\<lambda>v. (case view_amount v of None \<Rightarrow> 0 | Some n \<Rightarrow> n) = k) views
                 = filter (\<lambda>v. (case view_amount v of None \<Rightarrow> 0 | Some n \<Rightarrow> n) = k) expected)"
  unfolding Let_def listPrices_def map_throwing_live then_do_def
  using mset_sort_by [of compare_amount] sorted_sort_by_amount filter_sort_by
  unfolding amount_or_0_eq
  by simp

text \<open>A price list of five entries: one without product, one of a deleted product, one without amount.\<close>

lemma listPrices_sample:
  "listPrices
     [\<lparr>price_id = ''price_pro'', price_unit_amount = Some 2000, price_currency = ''usd'',
       price_recurring = Some \<lparr>recurring_interval = ''month'', recurring_interval_count = 1\<rparr>,
       price_product = Some \<lparr>product_id = ''prod_pro'', product_name = ''Pro'', product_description = None,
                                product_metadata = [], product_deleted = False\<rparr>\<rparr>,
      \<lparr>price_id = ''price_orphan'', price_unit_amount = Some 100, price_currency = ''usd'',
       price_recurring = None, price_product = None\<rparr>,
      \<lparr>price_id = ''price_old'', price_unit_amount = Some 300, price_currency = ''usd'',
       price_recurring = None,
       price_product = Some \<lparr>product_id = ''prod_old'', product_name = ''Old'', product_description = None,
                                product_metadata = [], product_deleted = True\<rparr>\<rparr>,
      \<lparr>price_id = ''price_custom'', price_unit_amount = None, price_currency = ''usd'',
       price_recurring = None,
       price_product = Some \<lparr>product_id = ''prod_custom'', product_name = ''Custom'',
                                product_description = Some ''Ask us'', product_metadata = [(''tier'', ''3'')],
                                product_deleted = False\<rparr>\<rparr>,
      \<lparr>price_id = ''price_kit'', price_unit_amount = Some 500, price_currency = ''eur'',
       price_recurring = Some \<lparr>recurring_interval = ''year'', recurring_interval_count = 2\<rparr>,
       price_product = Some \<lparr>product_id = ''prod_kit'', product_name = ''Kit'', product_description = None,
                                product_metadata = [], product_deleted = False\<rparr>\<rparr>]
   = Inr
     [\<lparr>view_id = ''price_custom'', view_amount = None, view_currency = ''usd'',
       view_interval = None, view_interval_count = None,
       view_product = \<lparr>pv_id = ''prod_custom'', pv_name = ''Custom'', pv_description = Some ''Ask us'',
                        pv_metadata = [(''tier'', ''3'')]\<rparr>\<rparr>,
      \<lparr>view_id = ''price_kit'', view_amount = Some 500, view_currency = ''eur'',
       view_interval = Some ''year'', view_interval_count = Some 2,
       view_product = \<lparr>pv_id = ''prod_kit'', pv_name = ''Kit'', pv_description = None, pv_metadata = []\<rparr>\<rparr>,
      \<lparr>view_id = ''price_pro'', view_amount = Some 2000, view_currency = ''usd'',
       view_interval = Some ''month'', view_interval_count = Some 1,
       view_product = \<lparr>pv_id = ''prod_pro'', pv_name = ''Pro'', pv_description = None, pv_metadata = []\<rparr>\<rparr>]"
  by (simp add: listPrices_def live_product_def format_price_def then_do_def
        compare_amount_def amount_or_0_def)
section \<open>Properties of the AI gateway worker\<close>

text \<open>
  Claim C5, as stated, fails: the 502 payload holds the failure message and the backend's
  origin, not the provider's name. For the provider \<^verbatim>\<open>claude\<close> and a network that refuses
  the connection, no key and no text of the payload contains \<^verbatim>\<open>claude\<close>.
\<close>

theorem gateway_502_names_backend_not_provider:
  "gateway_fetch refusing \<lparr>ANTHROPIC_API_KEY = None, OPENAI_API_KEY = None\<rparr>
     \<lparr>gw_method = ''POST'', gw_pathname = ''/v1/messages'', gw_search = ''?provider=claude'',
      gw_provider = Some ''claude'', gw_headers = [], gw_body = Some ''{}''\<rparr>
   = Inr \<lparr>status = 502, headers = [(''content-type'', ''application/json'')],
      body = Json (JObj [(''error'', JStr ''connection refused''),
                         (''backend'', JStr ''https://api.anthropic.com'')])\<rparr>
   \<and> \<not> contains_text ''error'' ''claude'' \<and> \<not> contains_text ''connection refused'' ''claude''
   \<and> \<not> contains_text ''backend'' ''claude'' \<and> \<not> contains_text ''https://api.anthropic.com'' ''claude''"
  by (simp add: gateway_fetch_def provider_of_def first_truthy_def truthy_text_def BACKENDS_def
        backend_of_def forwarded_request_def inject_auth_def then_do_def refusing_def json_response_def)

text \<open>
  Claim C5, amended. For every request whose provider is one of the three of the table and
  whose upstream fetch fails, the response is a 502 whose JSON payload is exactly the failure
  message (\<^verbatim>\<open>error\<close>) and the origin of the provider's backend (\<^verbatim>\<open>backend\<close>).
\<close>

theorem gateway_502_on_transport_failure:
  assumes "(provider_of req, origin) \<in> {(''ollama'', ''http://127.0.0.1:11434''),
                                          (''claude'', ''https://api.anthropic.com''),
                                          (''openai'', ''https://api.openai.com'')}"
    and "forwarded_request rt (Origin origin) e req = Inr call"
    and "upstream rt call = Inl message"
  shows "gateway_fetch rt e req =
           Inr \<lparr>status = 502, headers = [(''content-type'', ''application/json'')],
                 body = Json (JObj [(''error'', JStr message), (''backend'', JStr origin)])\<rparr>"
proof -
  have "backend_of (provider_of req) = Some (Origin origin)" and "origin \<noteq> []"
    using assms(1) by (auto simp: backend_of_def BACKENDS_def)
  then show ?thesis
    using assms(2,3) by (simp add: gateway_fetch_def then_do_def json_response_def)
qed

theorem gateway_502_on_transport_failure_witness:
  "(provider_of \<lparr>gw_method = ''POST'', gw_pathname = ''/v1/chat/completions'', gw_search = ''?provider=openai'',
      gw_provider = Some ''openai'', gw_headers = [], gw_body = Some ''{}''\<rparr>, ''https://api.openai.com'')
     \<in> {(''ollama'', ''http://127.0.0.1:11434''),
         (''claude'', ''https://api.anthropic.com''),
         (''openai'', ''https://api.openai.com'')}
   \<and> forwarded_request refusing (Origin ''https://api.openai.com'')
       \<lparr>ANTHROPIC_API_KEY = Some ''sk-ant-1'', OPENAI_API_KEY = None\<rparr>
       \<lparr>gw_method = ''POST'', gw_pathname = ''/v1/chat/completions'', gw_search = ''?provider=openai'',
        gw_provider = Some ''openai'', gw_headers = [], gw_body = Some ''{}''\<rparr>
     = Inr \<lparr>target_url = ''https://api.openai.com/v1/chat/completions?provider=openai'',
             forwarded_method = ''POST'', forwarded_headers = [], forwarded_body = Some ''{}''\<rparr>
   \<and> upstream refusing
       \<lparr>target_url = ''https://api.openai.com/v1/chat/completions?provider=openai'',
        forwarded_method = ''POST'', forwarded_headers = [], forwarded_body = Some ''{}''\<rparr>
     = Inl ''connection refused''
   \<and> gateway_fetch refusing \<lparr>ANTHROPIC_API_KEY = Some ''sk-ant-1'', OPENAI_API_KEY = None\<rparr>
     \<lparr>gw_method = ''POST'', gw_pathname = ''/v1/chat/completions'', gw_search = ''?provider=openai'',
      gw_provider = Some ''openai'', gw_headers = [], gw_body = Some ''{}''\<rparr>
   = Inr \<lparr>status = 502, headers = [(''content-type'', ''application/json'')],
           body = Json (JObj [(''error'', JStr ''connection refused''),
                              (''backend'', JStr ''https://api.openai.com'')])\<rparr>"
proof -
  let ?req = "\<lparr>gw_method = ''POST'', gw_pathname = ''/v1/chat/completions'', gw_search = ''?provider=openai'',
      gw_provider = Some ''openai'', gw_headers = [], gw_body = Some ''{}''\<rparr>"
  let ?e = "\<lparr>ANTHROPIC_API_KEY = Some ''sk-ant-1'', OPENAI_API_KEY = None\<rparr>"
  let ?call = "\<lparr>target_url = ''https://api.openai.com/v1/chat/completions?provider=openai'',
      forwarded_method = ''POST'', forwarded_headers = [], forwarded_body = Some ''{}''\<rparr>"
  have 1: "(provider_of ?req, ''https://api.openai.com'') \<in> {(''ollama'', ''http://127.0.0.1:11434''),
                                          (''claude'', ''https://api.anthropic.com''),
                                          (''openai'', ''https://api.openai.com'')}"
    by (simp add: provider_of_def first_truthy_def truthy_text_def)
  have 2: "forwarded_request refusing (Origin ''https://api.openai.com'') ?e ?req = Inr ?call"
    by (simp add: forwarded_request_def inject_auth_def provider_of_def first_truthy_def
          truthy_text_def then_do_def)
  have 3: "upstream refusing ?call = Inl ''connection refused''"
    by (simp add: refusing_def)
  show ?thesis
    using gateway_502_on_transport_failure [OF 1 2 3] 1 2 3 by simp
qed

text \<open>
  A provider name that the table only inherits passes the test \<^verbatim>\<open>!backend\<close>: the target
  is the text of a function, and when the fetch fails the 502 payload has no \<^verbatim>\<open>backend\<close>.
  A name that the table does not have at all is answered 400.
\<close>

lemma gateway_inherited_provider:
  "gateway_fetch refusing \<lparr>ANTHROPIC_API_KEY = None, OPENAI_API_KEY = None\<rparr>
     \<lparr>gw_method = ''GET'', gw_pathname = ''/api/tags'', gw_search = ''?provider=constructor'',
      gw_provider = Some ''constructor'', gw_headers = [], gw_body = None\<rparr>
   = Inr \<lparr>status = 502, headers = [(''content-type'', ''application/json'')],
           body = Json (JObj [(''error'', JStr ''connection refused'')])\<rparr>"
  by (simp add: gateway_fetch_def provider_of_def first_truthy_def truthy_text_def BACKENDS_def
        backend_of_def Object_prototype_def forwarded_request_def inject_auth_def then_do_def
        refusing_def json_response_def)

lemma gateway_unknown_provider:
  "gateway_fetch rt e
     \<lparr>gw_method = ''GET'', gw_pathname = ''/api/tags'', gw_search = ''?provider=mistral'',
      gw_provider = Some ''mistral'', gw_headers = [], gw_body = None\<rparr>
   = Inr \<lparr>status = 400, headers = [(''content-type'', ''application/json'')],
           body = Json (JObj [(''error'', JStr ''Unknown provider: mistral'')])\<rparr>"
  by (simp add: gateway_fetch_def provider_of_def first_truthy_def truthy_text_def BACKENDS_def
        backend_of_def Object_prototype_def unknown_provider_def json_response_def)
section \<open>Properties of the parameter encoding\<close>

subsection \<open>Escaping and its inverse\<close>

lemma of_char_less_256: "(of_char c :: nat) < 256"
proof -
  have "(of_char c :: nat) mod 256 < 256" by simp
  then show ?thesis by simp
qed

lemma unat_small: "n < 65536 \<Longrightarrow> unat (of_nat n :: 16 word) = n"
  by (simp add: unat_of_nat)

lemma unat_code_unit: "unat (code_unit c) = of_char c"
  unfolding code_unit_def
  by (rule unat_small) (use of_char_less_256 [of c] in linarith)

lemma code_unit_inject: "code_unit c = code_unit d \<longleftrightarrow> c = d"
proof
  assume "code_unit c = code_unit d"
  then have "unat (code_unit c) = unat (code_unit d)" by simp
  then show "c = d" by (simp add: unat_code_unit)
qed simp

lemma unit_of_unat: "(of_nat (unat c) :: 16 word) = c"
  by simp

lemma unat_less: "unat (c :: 16 word) < 65536"
  using unsigned_less [of c, where 'a=nat] by simp

lemma unat_upper_hex:
  assumes "d < 16"
  shows "unat (upper_hex d) = (if d < 10 then 48 + d else 55 + d)"
proof -
  have a: "unat (of_nat (48 + d) :: 16 word) = 48 + d"
    by (rule unat_small) (use assms in simp)
  have b: "unat (of_nat (55 + d) :: 16 word) = 55 + d"
    by (rule unat_small) (use assms in simp)
  show ?thesis
    unfolding upper_hex_def by (cases "d < 10") (simp_all only: a b if_True if_False)
qed

lemma hex_value_upper_hex: "d < 16 \<Longrightarrow> hex_value (upper_hex d) = d"
  by (auto simp: hex_value_def unat_upper_hex Let_def)

lemma upper_hex_plain: "d < 16 \<Longrightarrow> upper_hex d \<noteq> code_unit CHR ''&''"
proof
  assume d: "d < 16" and e: "upper_hex d = code_unit CHR ''&''"
  then have "unat (upper_hex d) = unat (code_unit CHR ''&'')" by simp
  then show False using d by (simp add: unat_upper_hex unat_code_unit split: if_splits)
qed

lemma unreserved_facts:
  "unreserved c \<Longrightarrow> c \<noteq> code_unit CHR ''&'' \<and> c \<noteq> code_unit CHR ''%'' \<and> unat c < 128
     \<and> \<not> leading_surrogate c \<and> \<not> trailing_surrogate c"
  by (auto simp: unreserved_def Let_def unat_code_unit leading_surrogate_def trailing_surrogate_def)

lemma nibbles: "b < 256 \<Longrightarrow> b div 16 < 16 \<and> b mod 16 < (16 :: nat)"
  using less_mult_imp_div_less [of b 16 16] by simp

lemma percent_bytes_plain:
  "c \<noteq> code_unit CHR ''%'' \<Longrightarrow> percent_bytes (c # rest) = unat c # percent_bytes rest"
  by (cases "(c # rest)" rule: percent_bytes.cases) auto

lemma percent_bytes_of_percent: "b < 256 \<Longrightarrow> percent_bytes (percent b @ rest) = b # percent_bytes rest"
  using nibbles [of b] by (simp add: percent_def hex_value_upper_hex)

lemma percent_no_amp: "b < 256 \<Longrightarrow> code_unit CHR ''&'' \<notin> set (percent b)"
  using nibbles [of b] upper_hex_plain [of "b div 16"] upper_hex_plain [of "b mod 16"]
  by (auto simp: percent_def code_unit_inject)

lemma utf8_octets: "cp < 1114112 \<Longrightarrow> b \<in> set (utf8 cp) \<Longrightarrow> b < 256"
proof -
  assume cp: "cp < 1114112" and b: "b \<in> set (utf8 cp)"
  have m: "cp mod 64 < 64" "cp div 64 mod 64 < 64" "cp div 4096 mod 64 < 64" by simp_all
  have d1: "cp < 2048 \<Longrightarrow> cp div 64 < 32" using less_mult_imp_div_less [of cp 32 64] by simp
  have d2: "cp < 65536 \<Longrightarrow> cp div 4096 < 16" using less_mult_imp_div_less [of cp 16 4096] by simp
  have d3: "cp div 262144 < 5" using cp less_mult_imp_div_less [of cp 5 262144] by simp
  show ?thesis
    using b m d1 d2 d3 by (auto simp: utf8_def split: if_splits)
qed

lemma percent_bytes_escapes:
  assumes "\<forall>b\<in>set bs. b < 256"
  shows "percent_bytes (concat (map percent bs) @ rest) = bs @ percent_bytes rest"
  using assms by (induction bs) (simp_all add: percent_bytes_of_percent)

lemma escapes_no_amp:
  assumes "cp < 1114112"
  shows "code_unit CHR ''&'' \<notin> set (escapes cp)"
  using utf8_octets [OF assms] percent_no_amp by (auto simp: escapes_def)

lemma utf8_units_1: "b < 192 \<Longrightarrow> utf8_units (b # rest) = of_nat b # utf8_units rest"
  by simp

lemma utf8_units_2:
  "192 \<le> b \<Longrightarrow> b < 224 \<Longrightarrow>
   utf8_units (b # b2 # rest) = of_nat ((b - 192) * 64 + (b2 - 128)) # utf8_units rest"
  by simp

lemma utf8_units_3:
  "224 \<le> b \<Longrightarrow> b < 240 \<Longrightarrow>
   utf8_units (b # b2 # b3 # rest)
     = of_nat ((b - 224) * 4096 + (b2 - 128) * 64 + (b3 - 128)) # utf8_units rest"
  by simp

lemma utf8_units_4:
  "240 \<le> b \<Longrightarrow>
   utf8_units (b # b2 # b3 # b4 # rest)
     = of_nat (55296 + ((b - 240) * 262144 + (b2 - 128) * 4096 + (b3 - 128) * 64 + (b4 - 128) - 65536) div 1024)
       # of_nat (56320 + ((b - 240) * 262144 + (b2 - 128) * 4096 + (b3 - 128) * 64 + (b4 - 128) - 65536) mod 1024)
       # utf8_units rest"
  by (simp add: Let_def)

lemma split_64: "(cp :: nat) div 64 * 64 + cp mod 64 = cp"
  by simp

lemma split_shift: "(x :: nat) div 64 * (64 * m) + x mod 64 * m = x * m"
proof -
  have "(x div 64 * 64 + x mod 64) * m = x * m" by (simp only: split_64)
  moreover have "(x div 64 * 64 + x mod 64) * m = x div 64 * (64 * m) + x mod 64 * m"
    by (simp only: add_mult_distrib mult.assoc)
  ultimately show ?thesis by simp
qed

lemma split_4096: "(cp :: nat) div 4096 * 4096 + cp div 64 mod 64 * 64 + cp mod 64 = cp"
proof -
  have "cp div 4096 = cp div 64 div 64" by (simp add: div_mult2_eq)
  moreover have "cp div 64 div 64 * (64 * 64) + cp div 64 mod 64 * 64 = cp div 64 * 64"
    by (rule split_shift)
  ultimately have "cp div 4096 * 4096 + cp div 64 mod 64 * 64 = cp div 64 * 64" by simp
  then show ?thesis using split_64 [of cp] by simp
qed

lemma split_262144:
  "(cp :: nat) div 262144 * 262144 + cp div 4096 mod 64 * 4096 + cp div 64 mod 64 * 64 + cp mod 64 = cp"
proof -
  have "cp div 262144 = cp div 4096 div 64" by (simp add: div_mult2_eq)
  moreover have "cp div 4096 div 64 * (64 * 4096) + cp div 4096 mod 64 * 4096 = cp div 4096 * 4096"
    by (rule split_shift)
  ultimately have "cp div 262144 * 262144 + cp div 4096 mod 64 * 4096 = cp div 4096 * 4096" by simp
  then show ?thesis using split_4096 [of cp] by simp
qed

lemma decode_utf8:
  assumes "cp < 65536"
  shows "utf8_units (utf8 cp @ rest) = of_nat cp # utf8_units rest"
proof -
  consider "cp < 128" | "128 \<le> cp" "cp < 2048" | "2048 \<le> cp" "cp < 65536"
    using assms by linarith
  then show ?thesis
  proof cases
    case 1
    then show ?thesis by (simp add: utf8_def)
  next
    case 2
    have d: "cp div 64 < 32" using 2 less_mult_imp_div_less [of cp 32 64] by simp
    have u: "utf8 cp = [192 + cp div 64, 128 + cp mod 64]" using 2 by (simp add: utf8_def)
    have "utf8_units ((192 + cp div 64) # (128 + cp mod 64) # rest)
            = of_nat ((192 + cp div 64 - 192) * 64 + (128 + cp mod 64 - 128)) # utf8_units rest"
      by (rule utf8_units_2) (use d in simp_all)
    then show ?thesis unfolding u using split_64 [of cp] by simp
  next
    case 3
    have d: "cp div 4096 < 16" using 3 less_mult_imp_div_less [of cp 16 4096] by simp
    have u: "utf8 cp = [224 + cp div 4096, 128 + cp div 64 mod 64, 128 + cp mod 64]"
      using 3 by (simp add: utf8_def)
    have "utf8_units ((224 + cp div 4096) # (128 + cp div 64 mod 64) # (128 + cp mod 64) # rest)
            = of_nat ((224 + cp div 4096 - 224) * 4096 + (128 + cp div 64 mod 64 - 128) * 64
                      + (128 + cp mod 64 - 128)) # utf8_units rest"
      by (rule utf8_units_3) (use d in simp_all)
    then show ?thesis unfolding u using split_4096 [of cp] by simp
  qed
qed

lemma decode_utf8_pair:
  assumes "65536 \<le> cp"
  shows "utf8_units (utf8 cp @ rest)
           = of_nat (55296 + (cp - 65536) div 1024) # of_nat (56320 + (cp - 65536) mod 1024)
             # utf8_units rest"
proof -
  have u: "utf8 cp = [240 + cp div 262144, 128 + cp div 4096 mod 64, 128 + cp div 64 mod 64, 128 + cp mod 64]"
    using assms by (simp add: utf8_def)
  have e: "(240 + cp div 262144 - 240) * 262144 + (128 + cp div 4096 mod 64 - 128) * 4096
             + (128 + cp div 64 mod 64 - 128) * 64 + (128 + cp mod 64 - 128) = cp"
    using split_262144 [of cp] by simp
  have "utf8_units ((240 + cp div 262144) # (128 + cp div 4096 mod 64) # (128 + cp div 64 mod 64)
                      # (128 + cp mod 64) # rest)
          = of_nat (55296 + ((240 + cp div 262144 - 240) * 262144 + (128 + cp div 4096 mod 64 - 128) * 4096
             + (128 + cp div 64 mod 64 - 128) * 64 + (128 + cp mod 64 - 128) - 65536) div 1024)
            # of_nat (56320 + ((240 + cp div 262144 - 240) * 262144 + (128 + cp div 4096 mod 64 - 128) * 4096
             + (128 + cp div 64 mod 64 - 128) * 64 + (128 + cp mod 64 - 128) - 65536) mod 1024)
            # utf8_units rest"
    by (rule utf8_units_4) simp
  then show ?thesis unfolding u e by simp
qed

lemma pair_code_point_range:
  assumes "leading_surrogate c" and "trailing_surrogate d"
  shows "65536 \<le> pair_code_point c d" and "pair_code_point c d < 1114112"
    and "(of_nat (55296 + (pair_code_point c d - 65536) div 1024) :: 16 word) = c"
    and "(of_nat (56320 + (pair_code_point c d - 65536) mod 1024) :: 16 word) = d"
proof -
  let ?h = "unat c - 55296" and ?l = "unat d - 56320"
  have h: "?h < 1024" "55296 + ?h = unat c" and l: "?l < 1024" "56320 + ?l = unat d"
    using assms by (auto simp: leading_surrogate_def trailing_surrogate_def)
  have p: "pair_code_point c d - 65536 = ?h * 1024 + ?l" by (simp add: pair_code_point_def)
  show "65536 \<le> pair_code_point c d" by (simp add: pair_code_point_def)
  have "?h * 1024 + ?l < 1024 * 1024" using h(1) l(1) by linarith
  then show "pair_code_point c d < 1114112" by (simp add: pair_code_point_def)
  have "(?h * 1024 + ?l) div 1024 = ?h" using l(1) by simp
  then show "(of_nat (55296 + (pair_code_point c d - 65536) div 1024) :: 16 word) = c"
    unfolding p using h(2) by (metis unit_of_unat)
  have "(?h * 1024 + ?l) mod 1024 = ?l" using l(1) by simp
  then show "(of_nat (56320 + (pair_code_point c d - 65536) mod 1024) :: 16 word) = d"
    unfolding p using l(2) by (metis unit_of_unat)
qed

lemma percent_bytes_code_point:
  "cp < 1114112 \<Longrightarrow> percent_bytes (escapes cp @ rest) = utf8 cp @ percent_bytes rest"
  unfolding escapes_def using utf8_octets [of cp] by (intro percent_bytes_escapes) blast

lemma encode_decode:
  "well_formed s \<Longrightarrow>
   \<exists>e. encode s = Inr e \<and> code_unit CHR ''&'' \<notin> set e \<and> utf8_units (percent_bytes e) = s"
proof (induction s rule: well_formed.induct)
  case 1
  show ?case by simp
next
  case (2 c)
  show ?case
  proof (cases "unreserved c")
    case True
    then show ?thesis
      using unreserved_facts [OF True] by (auto simp: percent_bytes_plain)
  next
    case False
    have lt: "unat c < 65536" by (rule unat_less)
    have "utf8_units (percent_bytes (escapes (unat c) @ [])) = of_nat (unat c) # utf8_units (percent_bytes [])"
      using lt by (simp only: percent_bytes_code_point decode_utf8) 
    then show ?thesis
      using False 2 escapes_no_amp [of "unat c"] lt by simp
  qed
next
  case (3 c d rest)
  show ?case
  proof (cases "unreserved c")
    case True
    have w: "well_formed (d # rest)" using 3(3) unreserved_facts [OF True] by simp
    have nl: "\<not> leading_surrogate c" using unreserved_facts [OF True] by simp
    obtain e where e: "encode (d # rest) = Inr e" "code_unit CHR ''&'' \<notin> set e"
       "utf8_units (percent_bytes e) = d # rest"
      using 3(2) [OF nl w] by blast
    show ?thesis
      using True unreserved_facts [OF True] e
      by (auto simp: then_do_def percent_bytes_plain)
  next
    case False
    show ?thesis
    proof (cases "leading_surrogate c")
      case True
      have t: "trailing_surrogate d" and w: "well_formed rest" using 3(3) True by simp_all
      obtain e where e: "encode rest = Inr e" "code_unit CHR ''&'' \<notin> set e"
         "utf8_units (percent_bytes e) = rest"
        using 3(1) [OF True w] by blast
      let ?cp = "pair_code_point c d"
      note r = pair_code_point_range [OF True t]
      have "utf8_units (percent_bytes (escapes ?cp @ e)) = c # d # utf8_units (percent_bytes e)"
        by (simp only: percent_bytes_code_point [OF r(2)] decode_utf8_pair [OF r(1)] r(3) r(4))
      then show ?thesis
        using False True t e escapes_no_amp [OF r(2)] by (simp add: then_do_def)
    next
      case nl: False
      have nt: "\<not> trailing_surrogate c" and w: "well_formed (d # rest)" using 3(3) nl by simp_all
      obtain e where e: "encode (d # rest) = Inr e" "code_unit CHR ''&'' \<notin> set e"
         "utf8_units (percent_bytes e) = d # rest"
        using 3(2) [OF nl w] by blast
      have lt: "unat c < 65536" by (rule unat_less)
      have lt2: "unat c < 1114112" using lt by linarith
      have "utf8_units (percent_bytes (escapes (unat c) @ e)) = of_nat (unat c) # utf8_units (percent_bytes e)"
        by (simp only: percent_bytes_code_point [OF lt2] decode_utf8 [OF lt])
      then show ?thesis
        using False nl nt e escapes_no_amp [OF lt2] by (simp add: then_do_def)
    qed
  qed
qed

lemma encode_escaped: "well_formed s \<Longrightarrow> encode s = Inr (escaped s)"
  using encode_decode [of s] by (auto simp: escaped_def)

lemma decode_escaped: "well_formed s \<Longrightarrow> decode (escaped s) = s"
  using encode_decode [of s] by (auto simp: escaped_def decode_def)

lemma escaped_no_amp: "well_formed s \<Longrightarrow> code_unit CHR ''&'' \<notin> set (escaped s)"
  using encode_decode [of s] by (auto simp: escaped_def)

lemma encode_throws: "\<not> well_formed s \<Longrightarrow> encode s = Inl URIError"
proof (induction s rule: well_formed.induct)
  case (3 c d rest)
  then show ?case
    using unreserved_facts [of c] by (auto simp: then_do_def)
qed (use unreserved_facts in auto)

subsection \<open>Keys and paths\<close>

lemma units_Nil: "units [] = []" and units_Cons: "units (c # s) = code_unit c # units s"
  and units_append: "units (a @ b) = units a @ units b"
  by (simp_all add: units_def)

lemma plain_segmentD:
  "plain_segment s \<Longrightarrow> code_unit CHR ''&'' \<notin> set s \<and> code_unit CHR ''='' \<notin> set s
     \<and> code_unit CHR ''['' \<notin> set s \<and> code_unit CHR '']'' \<notin> set s"
  by (auto simp: plain_segment_def list_all_iff units_def)

lemma digit_unit_plain: "digit_unit c \<Longrightarrow> c \<notin> set (units ''&=[]'')"
  by (auto simp: digit_unit_def units_def unat_code_unit)

lemma digit_unit_dec_nat: "c \<in> set (units (dec_nat i)) \<Longrightarrow> digit_unit c"
  using dec_nat_digits [of _ i] by (auto simp: units_def digit_unit_def dec_digit_def unat_code_unit)

lemma plain_dec_nat: "plain_segment (units (dec_nat i))"
  using digit_unit_dec_nat [of _ i] digit_unit_plain by (auto simp: plain_segment_def list_all_iff)

lemma all_digits_dec_nat: "all_digits (units (dec_nat i))"
  using digit_unit_dec_nat [of _ i] dec_nat_not_Nil [of i]
  by (auto simp: all_digits_def list_all_iff units_def)

lemma index_of_snoc: "index_of (s @ [c]) = index_of s * 10 + (unat c - 48)"
  by (simp add: index_of_def)

lemma index_of_dec_nat: "index_of (units (dec_nat n)) = n"
proof (induction n rule: dec_nat.induct)
  case (1 n)
  show ?case
  proof (cases "n < 10")
    case True
    then show ?thesis
      by (simp add: dec_nat_small index_of_def units_def unat_code_unit of_char_digit_char)
  next
    case False
    have "index_of (units (dec_nat n)) = index_of (units (dec_nat (n div 10))) * 10 + n mod 10"
      by (simp add: dec_nat_big [OF False] units_append units_Cons units_Nil index_of_snoc
            unat_code_unit of_char_digit_char)
    then show ?thesis using "1.IH" [OF False] by simp
  qed
qed

lemma wire_key_plain: "wire_key k \<Longrightarrow> plain_segment k"
  by (simp add: wire_key_def)

lemma takeWhile_stop: "\<forall>x\<in>set s. P x \<Longrightarrow> \<not> P y \<Longrightarrow> takeWhile P (s @ y # r) = s"
  by (induction s) auto

lemma dropWhile_stop: "\<forall>x\<in>set s. P x \<Longrightarrow> \<not> P y \<Longrightarrow> dropWhile P (s @ y # r) = y # r"
  by (induction s) auto

lemma takeWhile_all: "\<forall>x\<in>set s. P x \<Longrightarrow> takeWhile P s = s"
  by (induction s) auto

lemma dropWhile_all: "\<forall>x\<in>set s. P x \<Longrightarrow> dropWhile P s = []"
  by (induction s) auto

lemma brackets_Nil: "brackets [] = []"
  and brackets_Cons: "brackets (s # segs) = code_unit CHR ''['' # (s @ code_unit CHR '']'' # brackets segs)"
  by (simp_all add: brackets_def units_def)

lemma bracketed_brackets:
  "\<forall>s\<in>set segs. code_unit CHR '']'' \<notin> set s \<Longrightarrow> bracketed (brackets segs) = segs"
proof (induction segs)
  case Nil
  show ?case by (simp add: brackets_Nil)
next
  case (Cons s segs)
  have s: "\<forall>x\<in>set s. x \<noteq> code_unit CHR '']''" using Cons.prems by auto
  have t: "takeWhile (\<lambda>x. x \<noteq> code_unit CHR '']'') (s @ code_unit CHR '']'' # brackets segs) = s"
    using s by (intro takeWhile_stop) auto
  have d: "dropWhile (\<lambda>x. x \<noteq> code_unit CHR '']'') (s @ code_unit CHR '']'' # brackets segs)
             = code_unit CHR '']'' # brackets segs"
    using s by (intro dropWhile_stop) auto
  show ?case
    unfolding brackets_Cons using Cons t d by simp
qed

lemma render_key_Nil: "render_key [] = []"
  and render_key_Cons: "render_key (k # segs) = k @ brackets segs"
  by (simp_all add: render_key_def brackets_def)

lemma brackets_snoc: "brackets (segs @ [s]) = brackets segs @ units ''['' @ s @ units '']''"
  by (simp add: brackets_def)

lemma parse_render_key:
  assumes "code_unit CHR ''['' \<notin> set k" and "\<forall>s\<in>set segs. code_unit CHR '']'' \<notin> set s"
  shows "parse_key (render_key (k # segs)) = k # segs"
proof (cases segs)
  case Nil
  have k: "\<forall>x\<in>set k. x \<noteq> code_unit CHR ''[''" using assms(1) by auto
  show ?thesis using Nil
    by (simp add: render_key_Cons brackets_Nil parse_key_def takeWhile_all [OF k] dropWhile_all [OF k])
next
  case (Cons s rest)
  have k: "\<forall>x\<in>set k. x \<noteq> code_unit CHR ''[''" using assms(1) by auto
  obtain r where r: "brackets segs = code_unit CHR ''['' # r" using Cons by (simp add: brackets_Cons)
  have t: "takeWhile (\<lambda>x. x \<noteq> code_unit CHR ''['') (k @ code_unit CHR ''['' # r) = k"
    using k by (intro takeWhile_stop) auto
  have d: "dropWhile (\<lambda>x. x \<noteq> code_unit CHR ''['') (k @ code_unit CHR ''['' # r) = code_unit CHR ''['' # r"
    using k by (intro dropWhile_stop) auto
  show ?thesis
    unfolding render_key_Cons parse_key_def r t d
    using bracketed_brackets [OF assms(2)] r by simp
qed

lemma brackets_chars:
  "\<forall>s\<in>set segs. plain_segment s \<Longrightarrow>
   code_unit CHR ''&'' \<notin> set (brackets segs) \<and> code_unit CHR ''='' \<notin> set (brackets segs)"
  using plain_segmentD by (auto simp: brackets_def units_def code_unit_inject)

lemma render_key_chars:
  "\<forall>s\<in>set p. plain_segment s \<Longrightarrow>
   code_unit CHR ''&'' \<notin> set (render_key p) \<and> code_unit CHR ''='' \<notin> set (render_key p)"
proof (cases p)
  case Nil
  then show ?thesis by (simp add: render_key_def)
next
  case (Cons k segs)
  assume "\<forall>s\<in>set p. plain_segment s"
  then show ?thesis
    using Cons brackets_chars [of segs] plain_segmentD [of k] by (auto simp: render_key_Cons)
qed

lemma wire_part_eq: "wire_part pre (p, s) = render_key (pre @ p) @ code_unit CHR ''='' # escaped s"
  by (simp add: wire_part_def units_def)

lemma parse_wire_part:
  assumes "p \<noteq> []" and "\<forall>s\<in>set p. plain_segment s" and "well_formed s"
  shows "parse_part (wire_part [] (p, s)) = (p, s)"
proof -
  obtain k segs where p: "p = k # segs" using assms(1) by (cases p) auto
  let ?rk = "render_key p"
  have e: "\<forall>x\<in>set ?rk. x \<noteq> code_unit CHR ''=''" using render_key_chars [OF assms(2)] by auto
  have t: "takeWhile (\<lambda>x. x \<noteq> code_unit CHR ''='') (?rk @ code_unit CHR ''='' # escaped s) = ?rk"
    using e by (intro takeWhile_stop) auto
  have d: "dropWhile (\<lambda>x. x \<noteq> code_unit CHR ''='') (?rk @ code_unit CHR ''='' # escaped s)
             = code_unit CHR ''='' # escaped s"
    using e by (intro dropWhile_stop) auto
  have pk: "parse_key ?rk = p"
    unfolding p using assms(2) plain_segmentD p by (intro parse_render_key) auto
  show ?thesis
    by (simp add: wire_part_eq parse_part_def t d pk decode_escaped [OF assms(3)])
qed

lemma wire_part_chars:
  assumes "\<forall>s\<in>set (pre @ p). plain_segment s" and "well_formed s"
  shows "wire_part pre (p, s) \<noteq> [] \<and> code_unit CHR ''&'' \<notin> set (wire_part pre (p, s))"
  using render_key_chars [OF assms(1)] escaped_no_amp [OF assms(2)]
  by (auto simp: wire_part_eq code_unit_inject)

lemma join_amp: "join (units ''&'') (p # q # ps) = p @ code_unit CHR ''&'' # join (units ''&'') (q # ps)"
  by (simp add: units_def)

lemma split_join:
  "\<forall>p\<in>set parts. p \<noteq> [] \<and> code_unit CHR ''&'' \<notin> set p \<Longrightarrow>
   filter (\<lambda>p. p \<noteq> []) (split_on (code_unit CHR ''&'') (join (units ''&'') parts)) = parts"
proof (induction parts)
  case Nil
  show ?case by simp
next
  case (Cons p ps)
  show ?case
  proof (cases ps)
    case Nil
    then show ?thesis using Cons.prems by (simp add: split_on_no_sep)
  next
    case (Cons q qs)
    have "split_on (code_unit CHR ''&'') (p @ code_unit CHR ''&'' # join (units ''&'') (q # qs))
            = p # split_on (code_unit CHR ''&'') (join (units ''&'') (q # qs))"
      using Cons.prems by (intro split_on_append) auto
    then show ?thesis using Cons.IH Cons.prems Cons by (simp add: join_amp del: join.simps)
  qed
qed

lemma path_ok_Nil: "path_ok []"
  by (simp add: path_ok_def)

lemma path_ok_snoc: "path_ok pre \<Longrightarrow> wire_key k \<Longrightarrow> path_ok (pre @ [k])"
  by (cases pre) (auto simp: path_ok_def wire_key_def)

lemma full_key:
  assumes "path_ok pre"
  shows "(if render_key pre \<noteq> [] then render_key pre @ units ''['' @ k @ units '']'' else k)
           = render_key (pre @ [k])"
proof (cases pre)
  case Nil
  then show ?thesis by (simp add: render_key_def)
next
  case (Cons h segs)
  then have "h \<noteq> []" using assms by (simp add: path_ok_def)
  then show ?thesis using Cons by (simp add: render_key_Cons brackets_snoc)
qed

lemma encodeURIComponent_text: "well_formed s \<Longrightarrow> encodeURIComponent (PStr s) = Inr (escaped s)"
  by (simp add: encodeURIComponent_def then_do_def encode_escaped)

lemma encode_elements_texts:
  "list_all is_text vs \<Longrightarrow>
   encode_elements fk i vs =
     Inr (map (\<lambda>(j, v). fk @ units ''['' @ units (dec_nat j) @ units '']='' @ escaped (the_text v))
            (enumerate i vs))"
proof (induction vs arbitrary: i)
  case Nil
  show ?case by simp
next
  case (Cons v vs)
  then obtain s where v: "v = PStr s" and w: "well_formed s" by (cases v) auto
  show ?case using Cons by (simp add: v encodeURIComponent_text [OF w] then_do_def)
qed

lemma render_key_index:
  "render_key (pre @ [k, seg]) = render_key (pre @ [k]) @ units ''['' @ seg @ units '']''"
  by (cases pre) (simp_all add: render_key_Cons brackets_snoc brackets_def)

subsection \<open>The wire form of a tree\<close>

lemma is_text_the_text: "is_text v \<Longrightarrow> v = PStr (the_text v) \<and> well_formed (the_text v)"
  by (cases v) auto

lemma leaf_paths_value_plain:
    "wire_value v \<Longrightarrow> \<forall>(p, s)\<in>set (leaf_paths_value v). list_all plain_segment p \<and> well_formed s"
  and leaf_paths_plain:
    "wire_entries t \<Longrightarrow> \<forall>(p, s)\<in>set (leaf_paths t). p \<noteq> [] \<and> list_all plain_segment p \<and> well_formed s"
proof (induction v and t rule: wire_value_wire_entries.induct)
  case (1 s)
  then show ?case by simp
next
  case (2 elements)
  then have "\<forall>v\<in>set elements. well_formed (the_text v)"
    using is_text_the_text by (auto simp: list_all_iff)
  then show ?case by (auto simp: plain_dec_nat in_set_enumerate_eq)
next
  case (3 entries)
  then have "\<forall>(p, s)\<in>set (leaf_paths entries). p \<noteq> [] \<and> list_all plain_segment p \<and> well_formed s"
    by simp
  then show ?case by (simp add: split_def)
next
  case (6 k v rest)
  have k: "plain_segment k" using 6(3) by (simp add: wire_key_plain)
  have v: "\<forall>(p, s)\<in>set (leaf_paths_value v). list_all plain_segment p \<and> well_formed s"
    using 6(1) 6(3) by simp
  have r: "\<forall>(p, s)\<in>set (leaf_paths rest). p \<noteq> [] \<and> list_all plain_segment p \<and> well_formed s"
    using 6(2) 6(3) by simp
  show ?case
  proof (clarify)
    fix p s
    assume "(p, s) \<in> set (leaf_paths ((k, v) # rest))"
    then consider q where "p = k # q" "(q, s) \<in> set (leaf_paths_value v)" | "(p, s) \<in> set (leaf_paths rest)"
      by auto
    then show "p \<noteq> [] \<and> list_all plain_segment p \<and> well_formed s"
    proof cases
      case 1
      then show ?thesis using k v by auto
    next
      case 2
      then show ?thesis using r by auto
    qed
  qed
qed simp_all

lemma wire_parts_ok:
  assumes "path_ok pre" and "\<forall>(p, s)\<in>set leaves. list_all plain_segment p \<and> well_formed s"
  shows "\<forall>part\<in>set (map (wire_part pre) leaves). part \<noteq> [] \<and> code_unit CHR ''&'' \<notin> set part"
proof
  fix part
  assume "part \<in> set (map (wire_part pre) leaves)"
  then obtain p s where l: "(p, s) \<in> set leaves" and part: "part = wire_part pre (p, s)"
    by auto
  have ps: "list_all plain_segment p" and w: "well_formed s" using assms(2) l by auto
  have "\<forall>x\<in>set (pre @ p). plain_segment x"
    using assms(1) ps by (auto simp: path_ok_def list_all_iff)
  then show "part \<noteq> [] \<and> code_unit CHR ''&'' \<notin> set part"
    unfolding part using w by (rule wire_part_chars)
qed

lemma encode_wire_value:
    "wire_value v \<Longrightarrow> wire_key k \<Longrightarrow> path_ok pre \<Longrightarrow>
       encode_loop ((k, v) # rest) (render_key pre) parts =
       encode_loop rest (render_key pre)
         (parts @ map (wire_part pre) (map (\<lambda>(p, s). (k # p, s)) (leaf_paths_value v)))"
  and encode_wire:
    "wire_entries t \<Longrightarrow> path_ok pre \<Longrightarrow>
       encode_loop t (render_key pre) parts = Inr (parts @ map (wire_part pre) (leaf_paths t))"
proof (induction v and t arbitrary: k pre rest parts and pre parts rule: wire_value_wire_entries.induct)
  case (1 s)
  then show ?case
    by (simp add: full_key encodeURIComponent_text wire_part_def)
next
  case (2 elements)
  then show ?case
    by (simp add: full_key encode_elements_texts wire_part_def render_key_index split_def comp_def
          units_def)
next
  case (3 entries)
  let ?sub = "map (wire_part (pre @ [k])) (leaf_paths entries)"
  have ok: "path_ok (pre @ [k])" using 3 by (intro path_ok_snoc)
  have w: "wire_entries entries" using 3 by simp
  have "encode_loop entries (render_key (pre @ [k])) [] = Inr ([] @ ?sub)"
    using w ok by (rule "3.IH")
  then have e: "encodeStripeParams entries (render_key (pre @ [k])) = Inr (join (units ''&'') ?sub)"
    by simp
  have "\<forall>(p, s)\<in>set (leaf_paths entries). list_all plain_segment p \<and> well_formed s"
    using leaf_paths_plain [OF w] by auto
  then have f: "filter (\<lambda>p. p \<noteq> []) (split_on (code_unit CHR ''&'') (join (units ''&'') ?sub)) = ?sub"
    using wire_parts_ok [OF ok] by (intro split_join) blast
  have m: "map (wire_part pre) (map (\<lambda>(p, s). (k # p, s)) (leaf_paths_value (PObj entries))) = ?sub"
    by (simp add: wire_part_def split_def)
  have fk: "(if render_key pre \<noteq> [] then render_key pre @ units ''['' @ k @ units '']'' else k)
              = render_key (pre @ [k])"
    using 3 by (intro full_key)
  show ?case
    unfolding m
    by (simp only: encode_loop.simps Let_def fk e f param.simps sum.case if_True simp_thms)
next
  case (6 k v rest)
  then show ?case by simp
qed simp_all

lemma encodeStripeParams_wire:
  assumes "wire_entries t"
  shows "encodeStripeParams t [] = Inr (join (units ''&'') (map (wire_part []) (leaf_paths t)))"
proof -
  have "encode_loop t (render_key []) [] = Inr ([] @ map (wire_part []) (leaf_paths t))"
    using encode_wire [OF assms path_ok_Nil] .
  then show ?thesis by (simp add: render_key_def)
qed

lemma renest_wire:
  assumes "wire_entries t"
  shows "renest (join (units ''&'') (map (wire_part []) (leaf_paths t)))
           = foldl place [] (leaf_paths t)"
proof -
  have l: "\<forall>(p, s)\<in>set (leaf_paths t). p \<noteq> [] \<and> list_all plain_segment p \<and> well_formed s"
    using leaf_paths_plain [OF assms] .
  then have "\<forall>(p, s)\<in>set (leaf_paths t). list_all plain_segment p \<and> well_formed s" by auto
  then have f: "filter (\<lambda>p. p \<noteq> [])
                  (split_on (code_unit CHR ''&'') (join (units ''&'') (map (wire_part []) (leaf_paths t))))
          = map (wire_part []) (leaf_paths t)"
    using wire_parts_ok [OF path_ok_Nil] by (intro split_join) blast
  have g: "\<And>acc. \<forall>(p, s)\<in>set leaves. p \<noteq> [] \<and> list_all plain_segment p \<and> well_formed s \<Longrightarrow>
      foldl (\<lambda>obj part. case parse_part part of (path, v) \<Rightarrow> insert_at path v obj) acc (map (wire_part []) leaves)
        = foldl place acc leaves" for leaves
  proof (induction leaves)
    case Nil
    show ?case by simp
  next
    case (Cons leaf leaves)
    obtain p s where leaf: "leaf = (p, s)" by (cases leaf)
    have "parse_part (wire_part [] (p, s)) = (p, s)"
      using Cons.prems leaf by (intro parse_wire_part) (auto simp: list_all_iff)
    then show ?case using Cons by (simp add: leaf place_def del: insert_at.simps)
  qed
  show ?thesis unfolding renest_def f using g [OF l] .
qed

subsection \<open>Re-nesting\<close>

lemma put_new: "k \<notin> fst ` set acc \<Longrightarrow> put k v acc = acc @ [(k, v)]"
  by (induction acc) auto

lemma put_last: "k \<notin> fst ` set acc \<Longrightarrow> put k v (acc @ [(k, w)]) = acc @ [(k, v)]"
  by (induction acc) auto

lemma lookup_new:
  assumes "k \<notin> fst ` set acc"
  shows "lookup acc k = PUndefined"
proof -
  have "map_of acc k = None" using assms by (simp add: map_of_eq_None_iff)
  then show ?thesis by (simp add: lookup_def)
qed

lemma lookup_last: "k \<notin> fst ` set acc \<Longrightarrow> lookup (acc @ [(k, w)]) k = w"
  by (induction acc) (auto simp: lookup_def)

lemma place_new:
  "k \<notin> fst ` set acc \<Longrightarrow> place acc (k # p, s) = acc @ [(k, place_leaf PUndefined (p, s))]"
  by (simp add: place_def place_leaf_def lookup_new put_new)

lemma place_last:
  "k \<notin> fst ` set acc \<Longrightarrow> place (acc @ [(k, w)]) (k # p, s) = acc @ [(k, place_leaf w (p, s))]"
  by (simp add: place_def place_leaf_def lookup_last put_last)

lemma place_slot:
  assumes "k \<notin> fst ` set acc"
  shows "foldl place (acc @ [(k, w)]) (map (\<lambda>(p, s). (k # p, s)) ls)
           = acc @ [(k, foldl place_leaf w ls)]"
proof (induction ls arbitrary: w)
  case Nil
  show ?case by simp
next
  case (Cons leaf ls)
  obtain p s where leaf: "leaf = (p, s)" by (cases leaf)
  show ?case using Cons by (simp add: leaf place_last [OF assms])
qed

lemma place_slot_new:
  assumes "k \<notin> fst ` set acc" and "ls \<noteq> []"
  shows "foldl place acc (map (\<lambda>(p, s). (k # p, s)) ls)
           = acc @ [(k, foldl place_leaf PUndefined ls)]"
proof -
  obtain p s rest where ls: "ls = (p, s) # rest" using assms(2) by (cases ls) auto
  show ?thesis
    unfolding ls using place_slot [OF assms(1), of "place_leaf PUndefined (p, s)" rest]
    by (simp add: place_new [OF assms(1)])
qed

lemma set_at_end: "set_at (length xs) v xs = xs @ [v]"
  by (simp add: set_at_def)

lemma place_element:
  "place_leaf (PArr xs) ([units (dec_nat (length xs))], s) = PArr (xs @ [PStr s])"
  by (simp add: place_leaf_def all_digits_dec_nat index_of_dec_nat elements_of_def set_at_end)

lemma place_first_element:
  "place_leaf PUndefined ([units (dec_nat 0)], s) = PArr [PStr s]"
  by (simp add: place_leaf_def all_digits_dec_nat index_of_dec_nat elements_of_def set_at_def)

lemma place_elements:
  assumes "list_all is_text vs"
  shows "foldl place_leaf (PArr xs)
           (map (\<lambda>(i, v). ([units (dec_nat i)], the_text v)) (enumerate (length xs) vs))
           = PArr (xs @ vs)"
  using assms
proof (induction vs arbitrary: xs)
  case Nil
  show ?case by simp
next
  case (Cons v vs)
  then obtain s where v: "v = PStr s" by (cases v) auto
  have "foldl place_leaf (PArr (xs @ [PStr s]))
           (map (\<lambda>(i, v). ([units (dec_nat i)], the_text v)) (enumerate (length (xs @ [PStr s])) vs))
           = PArr ((xs @ [PStr s]) @ vs)"
    using Cons.prems by (intro Cons.IH) simp
  then show ?case
    by (simp add: v place_element)
qed

lemma place_object:
  "\<not> all_digits k \<Longrightarrow> place_leaf (PObj kvs) (k # q, s) = PObj (place kvs (k # q, s))"
  by (simp add: place_leaf_def place_def entries_of_def)

lemma place_first_object:
  "\<not> all_digits k \<Longrightarrow> place_leaf PUndefined (k # q, s) = PObj (place [] (k # q, s))"
  by (simp add: place_leaf_def place_def entries_of_def)

lemma place_objects:
  assumes "\<forall>(p, s)\<in>set ls. \<exists>k q. p = k # q \<and> \<not> all_digits k"
  shows "foldl place_leaf (PObj kvs) ls = PObj (foldl place kvs ls)"
  using assms
proof (induction ls arbitrary: kvs)
  case Nil
  show ?case by simp
next
  case (Cons leaf ls)
  obtain p s where leaf: "leaf = (p, s)" by (cases leaf)
  obtain k q where p: "p = k # q" and k: "\<not> all_digits k" using Cons.prems leaf by auto
  show ?case using Cons by (simp add: leaf p place_object [OF k])
qed

lemma leaf_paths_value_not_Nil: "wire_value v \<Longrightarrow> leaf_paths_value v \<noteq> []"
  and leaf_paths_not_Nil: "wire_entries t \<Longrightarrow> t \<noteq> [] \<Longrightarrow> leaf_paths t \<noteq> []"
proof (induction v and t rule: wire_value_wire_entries.induct)
  case (2 elements)
  then show ?case by (cases elements) (simp_all add: enumerate_simps)
qed simp_all

lemma leaf_paths_heads:
  "\<forall>(p, s)\<in>set (leaf_paths t). \<exists>k q. p = k # q \<and> k \<in> fst ` set t"
proof (induction t)
  case Nil
  show ?case by simp
next
  case (Cons e t)
  obtain k v where e: "e = (k, v)" by (cases e)
  show ?case using Cons unfolding e by (fastforce simp: image_iff)
qed

lemma wire_entries_keys: "wire_entries t \<Longrightarrow> k \<in> fst ` set t \<Longrightarrow> wire_key k"
  by (induction t) force+

lemma renest_value:
    "wire_value v \<Longrightarrow> foldl place_leaf PUndefined (leaf_paths_value v) = v"
  and renest_entries:
    "wire_entries t \<Longrightarrow> fst ` set acc \<inter> fst ` set t = {} \<Longrightarrow>
       foldl place acc (leaf_paths t) = acc @ t"
proof (induction v and t arbitrary: and acc rule: wire_value_wire_entries.induct)
  case (1 s)
  then show ?case by (simp add: place_leaf_def)
next
  case (2 elements)
  then obtain v vs where el: "elements = v # vs" by (cases elements) auto
  have vs: "list_all is_text vs" using 2 el by simp
  obtain s where v: "v = PStr s" using 2 el by (cases v) auto
  have "foldl place_leaf PUndefined (leaf_paths_value (PArr elements))
          = foldl place_leaf (place_leaf PUndefined ([units (dec_nat 0)], s))
              (map (\<lambda>(i, v). ([units (dec_nat i)], the_text v)) (enumerate (Suc 0) vs))"
    by (simp add: el v)
  also have "\<dots> = PArr ([PStr s] @ vs)"
    unfolding place_first_element using place_elements [OF vs, of "[PStr s]"] by simp
  finally show ?case by (simp add: el v)
next
  case (3 entries)
  have w: "wire_entries entries" and ne: "entries \<noteq> []" using 3 by simp_all
  obtain p0 s0 ls where l: "leaf_paths entries = (p0, s0) # ls"
    using leaf_paths_not_Nil [OF w ne] by (cases "leaf_paths entries") auto
  have heads: "\<forall>(p, s)\<in>set (leaf_paths entries). \<exists>k q. p = k # q \<and> \<not> all_digits k"
  proof (clarify)
    fix p s
    assume "(p, s) \<in> set (leaf_paths entries)"
    then have "\<exists>k q. p = k # q \<and> k \<in> fst ` set entries"
      using leaf_paths_heads [of entries] by fastforce
    then obtain k q where "p = k # q" "k \<in> fst ` set entries" by blast
    then show "\<exists>k q. p = k # q \<and> \<not> all_digits k"
      using wire_entries_keys [OF w] by (auto simp: wire_key_def)
  qed
  obtain k0 q0 where p0: "p0 = k0 # q0" and k0: "\<not> all_digits k0"
    using heads l by auto
  have "foldl place_leaf PUndefined (leaf_paths_value (PObj entries))
          = foldl place_leaf (place_leaf (PObj []) (p0, s0)) ls"
    by (simp add: l p0 place_first_object [OF k0] place_object [OF k0])
  also have "\<dots> = foldl place_leaf (PObj []) (leaf_paths entries)"
    by (simp add: l)
  also have "\<dots> = PObj (foldl place [] (leaf_paths entries))"
    using heads by (rule place_objects)
  also have "foldl place [] (leaf_paths entries) = [] @ entries"
    by (rule "3.IH" [OF w]) simp
  finally show ?case by simp
next
  case (6 k v rest)
  have kacc: "k \<notin> fst ` set acc" using 6(4) by auto
  have v: "wire_value v" and r: "wire_entries rest" and kr: "k \<notin> fst ` set rest"
    using 6(3) by simp_all
  have d: "fst ` set (acc @ [(k, v)]) \<inter> fst ` set rest = {}"
    using 6(4) kr by auto
  have "foldl place acc (leaf_paths ((k, v) # rest))
          = foldl place (foldl place acc (map (\<lambda>(p, s). (k # p, s)) (leaf_paths_value v))) (leaf_paths rest)"
    by simp
  also have "\<dots> = foldl place (acc @ [(k, foldl place_leaf PUndefined (leaf_paths_value v))]) (leaf_paths rest)"
    using place_slot_new [OF kacc leaf_paths_value_not_Nil [OF v]] by simp
  also have "\<dots> = foldl place (acc @ [(k, v)]) (leaf_paths rest)"
    using "6.IH"(1) [OF v] by simp
  also have "\<dots> = (acc @ [(k, v)]) @ rest"
    using r d by (rule "6.IH"(2))
  finally show ?case by simp
qed simp_all

lemma encode_loop_drop_nulls:
  "encode_loop obj prefix parts = encode_loop (drop_nulls obj) prefix parts"
proof (induction obj arbitrary: prefix parts rule: drop_nulls.induct)
  case 1
  show ?case by simp
next
  case (2 k v rest)
  have r: "encode_loop rest pf ps = encode_loop (drop_nulls rest) pf ps" for pf ps
  proof (cases "v = PNull \<or> v = PUndefined")
    case True
    then show ?thesis by (rule 2(1))
  next
    case False
    show ?thesis
    proof (cases v)
      case PUndefined
      then show ?thesis using False by simp
    next
      case PNull
      then show ?thesis using False by simp
    next
      case (PBool x)
      show ?thesis by (rule 2(4) [OF False PBool])
    next
      case (PNum x)
      show ?thesis by (rule 2(5) [OF False PNum])
    next
      case (PStr x)
      show ?thesis by (rule 2(6) [OF False PStr])
    next
      case (PArr x)
      show ?thesis by (rule 2(7) [OF False PArr])
    next
      case (PObj x)
      show ?thesis by (rule 2(9) [OF False PObj])
    qed
  qed
  show ?case
  proof (cases v)
    case PUndefined
    then show ?thesis by (simp add: r)
  next
    case PNull
    then show ?thesis by (simp add: r)
  next
    case (PBool x)
    then show ?thesis by (simp add: r Let_def split: sum.splits)
  next
    case (PNum x)
    then show ?thesis by (simp add: r Let_def split: sum.splits)
  next
    case (PStr x)
    then show ?thesis by (simp add: r Let_def split: sum.splits)
  next
    case (PArr x)
    then show ?thesis by (simp add: r Let_def split: sum.splits)
  next
    case (PObj entries)
    have "encode_loop entries fk [] = encode_loop (drop_nulls entries) fk []" for fk
      by (rule 2(8) [OF _ PObj]) (simp add: PObj)
    then have e: "encodeStripeParams entries fk = encodeStripeParams (drop_nulls entries) fk" for fk
      by simp
    show ?thesis
      by (simp add: PObj e r Let_def del: encodeStripeParams.simps split: sum.splits)
  qed
qed

lemma encodeStripeParams_drop_nulls:
  "encodeStripeParams obj prefix = encodeStripeParams (drop_nulls obj) prefix"
  using encode_loop_drop_nulls [of obj prefix "[]"] by simp

text \<open>
  Claim C4, amended. For every parameter tree that, without its \<^verbatim>\<open>null\<close> and
  \<^verbatim>\<open>undefined\<close> entries, has as leaves only strings in which every surrogate is paired,
  only non-empty sequences of such strings, no empty nested object, and keys that are not
  empty, not made of digits only, free of \<^verbatim>\<open>&\<close>, \<^verbatim>\<open>=\<close>, \<^verbatim>\<open>[\<close>, \<^verbatim>\<open>]\<close> and distinct
  within an object: the flattening returns a wire form (it does not throw), re-nesting it
  (a bracketed segment of digits as the position in a sequence, any other segment as an object
  key, the leaf percent-decoded) gives the tree without its \<^verbatim>\<open>null\<close> and \<^verbatim>\<open>undefined\<close>
  entries, and no other such tree has the same wire form.
\<close>

theorem flatten_then_renest:
  assumes "wire_entries (drop_nulls t)"
  shows "(\<exists>wire. encodeStripeParams t [] = Inr wire \<and> renest wire = drop_nulls t)
       \<and> (\<forall>t'. wire_entries (drop_nulls t') \<and> encodeStripeParams t' [] = encodeStripeParams t []
              \<longrightarrow> drop_nulls t' = drop_nulls t)"
proof -
  have rt: "\<exists>wire. encodeStripeParams u [] = Inr wire \<and> renest wire = drop_nulls u"
    if "wire_entries (drop_nulls u)" for u
  proof -
    let ?d = "drop_nulls u"
    have "renest (join (units ''&'') (map (wire_part []) (leaf_paths ?d))) = foldl place [] (leaf_paths ?d)"
      using renest_wire [OF that] .
    also have "\<dots> = [] @ ?d" by (rule renest_entries [OF that]) simp
    finally show ?thesis
      using encodeStripeParams_wire [OF that] encodeStripeParams_drop_nulls [of u "[]"] by simp
  qed
  show ?thesis
  proof (intro conjI allI impI)
    show "\<exists>wire. encodeStripeParams t [] = Inr wire \<and> renest wire = drop_nulls t"
      using assms by (rule rt)
  next
    fix t'
    assume a: "wire_entries (drop_nulls t') \<and> encodeStripeParams t' [] = encodeStripeParams t []"
    obtain w where w: "encodeStripeParams t [] = Inr w" "renest w = drop_nulls t"
      using rt [OF assms] by blast
    obtain w' where w': "encodeStripeParams t' [] = Inr w'" "renest w' = drop_nulls t'"
      using rt [of t'] a by blast
    have "w' = w" using a w(1) w'(1) by simp
    then show "drop_nulls t' = drop_nulls t" using w(2) w'(2) by simp
  qed
qed

text \<open>The encoder and the re-nesting at concrete inputs.\<close>

lemmas encode_eval = encodeURIComponent_def then_do_def unreserved_def leading_surrogate_def
  trailing_surrogate_def pair_code_point_def escapes_def utf8_def percent_def upper_hex_def
  units_def code_unit_def Let_def

lemma dec_nat_0: "dec_nat 0 = ''0''" and dec_nat_1: "dec_nat (Suc 0) = ''1''" and dec_int_1: "dec_int 1 = ''1''"
  by (simp_all add: dec_int_def dec_nat.simps digit_char_def char_of_eq_iff)

text \<open>
  A run: a nested object with a \<^verbatim>\<open>null\<close> entry, and a sequence whose second string is
  \<^verbatim>\<open>U+00E9\<close>, \<^verbatim>\<open>U+20AC\<close> and the surrogate pair of \<^verbatim>\<open>U+1F600\<close>.
\<close>

lemma encode_sample:
  "encodeStripeParams
     [(units ''mode'', PStr (units ''subscription'')),
      (units ''metadata'', PObj [(units ''plan'', PStr (units ''a b'')), (units ''note'', PNull)]),
      (units ''items'', PArr [PStr (units ''x''), PStr [233, 8364, 55357, 56832]])] []
   = Inr (units ''mode=subscription&metadata[plan]=a%20b&items[0]=x&items[1]=%C3%A9%E2%82%AC%F0%9F%98%80'')"
  by (simp add: encode_eval dec_nat_0 dec_nat_1)

text \<open>A string leaf with a surrogate that has no partner makes the encoder throw.\<close>

lemma lone_surrogate_throws:
  "encodeStripeParams [(units ''a'', PStr [55357])] [] = Inl URIError"
  by (simp add: encode_eval)

text \<open>
  An object inside a sequence is not flattened: the loop over a sequence converts each
  element to text, where the branch for an object under a key recurses.
\<close>

lemma array_of_objects_is_stringified:
  "encodeStripeParams [(units ''a'', PArr [PObj [(units ''b'', PStr (units ''1''))]])] []
     = Inr (units ''a[0]=%5Bobject%20Object%5D'')"
  by (simp add: encode_eval dec_nat_0)

text \<open>The re-nesting puts an element at the position its index names.\<close>

lemma replicate_2: "replicate 2 x = [x, x]"
  by (simp add: numeral_2_eq_2)

lemma renest_follows_indices:
  "renest (units ''a[1]=y&a[0]=x&b[2]=z'')
     = [(units ''a'', PArr [PStr (units ''x''), PStr (units ''y'')]),
        (units ''b'', PArr [PUndefined, PUndefined, PStr (units ''z'')])]"
  by (simp add: renest_def parse_part_def parse_key_def decode_def all_digits_def digit_unit_def
        index_of_def set_at_def elements_of_def entries_of_def lookup_def units_def code_unit_def
        replicate_2)

lemma wire_sample:
  "wire_entries (drop_nulls
     [(units ''mode'', PStr (units ''subscription'')),
      (units ''metadata'', PObj [(units ''plan'', PStr (units ''a b'')), (units ''note'', PNull)]),
      (units ''items'', PArr [PStr (units ''x''), PStr [233, 8364, 55357, 56832]])])"
  by (simp add: wire_key_def plain_segment_def all_digits_def digit_unit_def units_def code_unit_def
        leading_surrogate_def trailing_surrogate_def)

theorem flatten_then_renest_witness:
  "wire_entries (drop_nulls
     [(units ''mode'', PStr (units ''subscription'')),
      (units ''metadata'', PObj [(units ''plan'', PStr (units ''a b'')), (units ''note'', PNull)]),
      (units ''items'', PArr [PStr (units ''x''), PStr [233, 8364, 55357, 56832]])])
   \<and> (\<exists>wire. encodeStripeParams
         [(units ''mode'', PStr (units ''subscription'')),
          (units ''metadata'', PObj [(units ''plan'', PStr (units ''a b'')), (units ''note'', PNull)]),
          (units ''items'', PArr [PStr (units ''x''), PStr [233, 8364, 55357, 56832]])] [] = Inr wire
        \<and> renest wire =
          [(units ''mode'', PStr (units ''subscription'')),
           (units ''metadata'', PObj [(units ''plan'', PStr (units ''a b''))]),
           (units ''items'', PArr [PStr (units ''x''), PStr [233, 8364, 55357, 56832]])])"
proof -
  have d: "drop_nulls
     [(units ''mode'', PStr (units ''subscription'')),
      (units ''metadata'', PObj [(units ''plan'', PStr (units ''a b'')), (units ''note'', PNull)]),
      (units ''items'', PArr [PStr (units ''x''), PStr [233, 8364, 55357, 56832]])]
    = [(units ''mode'', PStr (units ''subscription'')),
       (units ''metadata'', PObj [(units ''plan'', PStr (units ''a b''))]),
       (units ''items'', PArr [PStr (units ''x''), PStr [233, 8364, 55357, 56832]])]"
    by simp
  show ?thesis
    using conjunct1 [OF flatten_then_renest [OF wire_sample]] wire_sample
    by (simp only: d simp_thms)
qed

text \<open>
  Claim C4, as stated, fails: the wire form of a tree with an empty nested object is the
  wire form of the tree without it (the empty text, which re-nests to the empty tree), so
  the tree does not come back. The wire form also does not tell an empty sequence from
  nothing, a number from its text, an object keyed \<^verbatim>\<open>0\<close> from a sequence, or a key
  \<^verbatim>\<open>a[b]\<close> from \<^verbatim>\<open>b\<close> nested under \<^verbatim>\<open>a\<close>.
\<close>

theorem flattening_loses_structure:
  "encodeStripeParams [(units ''a'', PObj [])] [] = Inr []
   \<and> renest [] = []
   \<and> [(units ''a'', PObj [])] \<noteq> ([] :: (ustring \<times> param) list)
   \<and> encodeStripeParams [(units ''a'', PObj [])] [] = encodeStripeParams [] []
   \<and> encodeStripeParams [(units ''a'', PArr [])] [] = encodeStripeParams [] []
   \<and> encodeStripeParams [(units ''a'', PNum 1)] [] = encodeStripeParams [(units ''a'', PStr (units ''1''))] []
   \<and> encodeStripeParams [(units ''a'', PObj [(units ''0'', PStr (units ''x''))])] []
       = encodeStripeParams [(units ''a'', PArr [PStr (units ''x'')])] []
   \<and> encodeStripeParams [(units ''a[b]'', PStr (units ''x''))] []
       = encodeStripeParams [(units ''a'', PObj [(units ''b'', PStr (units ''x''))])] []"
  by (simp add: encode_eval dec_nat_0 dec_int_1 renest_def)

end
